theory Spec2Isabelle
  imports Complex_Main "HOL-Library.Word"
begin

section \<open>JavaScript values as the handler sees them\<close>

text \<open>
  The request body is whatever \<^verbatim>\<open>req.json()\<close> returns: a JSON value. A number is kept by
  the two observations the handler can make of it: whether it is non-zero (its
  truthiness) and its rendering by ToString (inside a template literal). A string is a
  list of 8-bit characters. An object is the list of its own properties, looked up by
  name. \<^verbatim>\<open>undefined\<close> is \<open>None\<close> of \<open>json option\<close>.
\<close>

datatype json =
    JNull
  | JBool bool
  | JNum (num_nonzero: bool) (num_text: string)
  | JStr string
  | JArr "json list"
  | JObj "(string \<times> json) list"

type_synonym bytes = "8 word list"

text \<open>ToBoolean: \<^verbatim>\<open>null\<close>, \<^verbatim>\<open>false\<close>, \<^verbatim>\<open>0\<close> and \<^verbatim>\<open>""\<close> are falsy, every array and object is truthy.\<close>

fun truthy :: "json \<Rightarrow> bool" where
  "truthy JNull = False"
| "truthy (JBool b) = b"
| "truthy (JNum nz t) = nz"
| "truthy (JStr s) = (s \<noteq> [])"
| "truthy (JArr xs) = True"
| "truthy (JObj kvs) = True"

fun truthy_opt :: "json option \<Rightarrow> bool" where
  "truthy_opt None = False"
| "truthy_opt (Some v) = truthy v"

text \<open>
  \<^verbatim>\<open>body?.k\<close> for the property names the handler reads (none of them is inherited from a
  prototype): an own property of an object, \<^verbatim>\<open>undefined\<close> on anything else.
\<close>

fun get_prop :: "json \<Rightarrow> string \<Rightarrow> json option" where
  "get_prop (JObj kvs) k = map_of kvs k"
| "get_prop v k = None"

text \<open>\<^verbatim>\<open>body.k = v\<close> and \<^verbatim>\<open>delete body.k\<close>; both are reached on objects only.\<close>

fun set_assoc :: "string \<Rightarrow> json \<Rightarrow> (string \<times> json) list \<Rightarrow> (string \<times> json) list" where
  "set_assoc k v [] = [(k, v)]"
| "set_assoc k v ((k', v') # kvs) =
     (if k' = k then (k, v) # kvs else (k', v') # set_assoc k v kvs)"

fun set_prop :: "json \<Rightarrow> string \<Rightarrow> json \<Rightarrow> json" where
  "set_prop (JObj kvs) k v = JObj (set_assoc k v kvs)"
| "set_prop b k v = b"

fun delete_prop :: "json \<Rightarrow> string \<Rightarrow> json" where
  "delete_prop (JObj kvs) k = JObj (filter (\<lambda>kv. fst kv \<noteq> k) kvs)"
| "delete_prop b k = b"

text \<open>\<^verbatim>\<open>x ?? null\<close>\<close>

fun or_null :: "json option \<Rightarrow> json" where
  "or_null None = JNull"
| "or_null (Some v) = v"

text \<open>
  \<^verbatim>\<open>JSON.stringify\<close> of an object literal: a property whose value is \<^verbatim>\<open>undefined\<close> is
  left out.
\<close>

fun defined_properties :: "(string \<times> json option) list \<Rightarrow> (string \<times> json) list" where
  "defined_properties [] = []"
| "defined_properties ((k, None) # ps) = defined_properties ps"
| "defined_properties ((k, Some v) # ps) = (k, v) # defined_properties ps"

text \<open>Everything the handler can throw, or await the rejection of.\<close>

datatype exn =
    JsonParseError
  | TypeError
  | InvalidCharacterError
  | UploadRejected
  | InsertRejected
  | FetchRejected
  | TextRejected

text \<open>
  ToString, as a template literal applies it. An array joins the renderings of its
  elements with commas, \<^verbatim>\<open>null\<close> elements rendering as the empty string. A parsed object
  has no callable \<^verbatim>\<open>toString\<close> of its own: with an own property of that name the
  conversion throws a TypeError, without one it is \<^verbatim>\<open>Object.prototype.toString\<close>.
\<close>

fun join_commas :: "string list \<Rightarrow> string" where
  "join_commas [] = []"
| "join_commas [s] = s"
| "join_commas (s # t # ss) = s @ '','' @ join_commas (t # ss)"

fun all_some :: "'a option list \<Rightarrow> 'a list option" where
  "all_some [] = Some []"
| "all_some (None # xs) = None"
| "all_some (Some x # xs) = (case all_some xs of None \<Rightarrow> None | Some ys \<Rightarrow> Some (x # ys))"

fun to_string :: "json \<Rightarrow> string option" where
  "to_string JNull = Some ''null''"
| "to_string (JBool b) = Some (if b then ''true'' else ''false'')"
| "to_string (JNum nz t) = Some t"
| "to_string (JStr s) = Some s"
| "to_string (JArr xs) =
     map_option join_commas
       (all_some (map (\<lambda>x. if x = JNull then Some [] else to_string x) xs))"
| "to_string (JObj kvs) =
     (if map_of kvs ''toString'' = None then Some ''[object Object]'' else None)"

text \<open>Decimal rendering of an integer, as ToString gives it for \<^verbatim>\<open>Date.now()\<close>.\<close>

fun dec_nat :: "nat \<Rightarrow> string" where
  "dec_nat n =
     (if n < 10 then [''0123456789'' ! n]
      else dec_nat (n div 10) @ [''0123456789'' ! (n mod 10)])"

definition dec_int :: "int \<Rightarrow> string" where
  "dec_int i = (if i < 0 then CHR ''-'' # dec_nat (nat (- i)) else dec_nat (nat i))"

section \<open>String operations of the runtime\<close>

text \<open>\<^verbatim>\<open>s.startsWith(p)\<close>\<close>

definition startsWith :: "string \<Rightarrow> string \<Rightarrow> bool" where
  "startsWith s p = (take (length p) s = p)"

text \<open>\<^verbatim>\<open>s.split(c)\<close> for a one-character separator: never the empty list.\<close>

fun split_on :: "char \<Rightarrow> string \<Rightarrow> string list" where
  "split_on c [] = [[]]"
| "split_on c (x # xs) =
     (if x = c then [] # split_on c xs
      else (case split_on c xs of
              [] \<Rightarrow> [[x]]
            | p # ps \<Rightarrow> (x # p) # ps))"

text \<open>\<^verbatim>\<open>s.indexOf(c)\<close>: the first position of the character, or -1.\<close>

fun indexOf :: "string \<Rightarrow> char \<Rightarrow> int" where
  "indexOf [] c = - 1"
| "indexOf (x # xs) c =
     (if x = c then 0
      else (let i = indexOf xs c in if i < 0 then - 1 else i + 1))"

text \<open>
  \<^verbatim>\<open>s.slice(start, end)\<close>: a negative index counts from the end, both are clamped to the
  string, and an end before the start gives the empty string.
\<close>

definition clamp_index :: "nat \<Rightarrow> int \<Rightarrow> nat" where
  "clamp_index len i = (if i < 0 then nat (max (int len + i) 0) else min (nat i) len)"

definition slice_string :: "string \<Rightarrow> int \<Rightarrow> int \<Rightarrow> string" where
  "slice_string s start stop =
     (let lo = clamp_index (length s) start; hi = clamp_index (length s) stop
      in take (hi - lo) (drop lo s))"

subsection \<open>Base64: \<^verbatim>\<open>Buffer.toString('base64')\<close> and \<^verbatim>\<open>atob\<close>\<close>

definition b64_alphabet :: string where
  "b64_alphabet =
     ''ABCDEFGHIJKLMNOPQRSTUVWXYZabcdefghijklmnopqrstuvwxyz0123456789+/''"

definition b64_char :: "nat \<Rightarrow> char" where
  "b64_char n = b64_alphabet ! n"

fun index_in :: "char list \<Rightarrow> char \<Rightarrow> nat option" where
  "index_in [] c = None"
| "index_in (x # xs) c = (if x = c then Some 0 else map_option Suc (index_in xs c))"

definition b64_value :: "char \<Rightarrow> nat option" where
  "b64_value c = index_in b64_alphabet c"

text \<open>The six-bit groups of a byte sequence, three bytes to four groups.\<close>

fun sextets :: "bytes \<Rightarrow> nat list" where
  "sextets [] = []"
| "sextets [a] = [unat a div 4, (unat a mod 4) * 16]"
| "sextets [a, b] =
     [unat a div 4, (unat a mod 4) * 16 + unat b div 16, (unat b mod 16) * 4]"
| "sextets (a # b # c # bs) =
     [unat a div 4, (unat a mod 4) * 16 + unat b div 16,
      (unat b mod 16) * 4 + unat c div 64, unat c mod 64] @ sextets bs"

definition padding :: "nat \<Rightarrow> nat" where
  "padding n = (3 - n mod 3) mod 3"

definition toBase64 :: "bytes \<Rightarrow> string" where
  "toBase64 bs = map b64_char (sextets bs) @ replicate (padding (length bs)) CHR ''=''"

text \<open>
  \<^verbatim>\<open>atob\<close> is the forgiving base64 decoder: ASCII whitespace is dropped; when the
  length is then a multiple of four, one or two trailing \<^verbatim>\<open>=\<close> are dropped; a length of
  1 modulo 4 or a character outside the alphabet is an InvalidCharacterError
  (\<open>None\<close>); the six-bit groups are read four to three bytes, the bits left over by a
  last group of two or three being discarded. The result is a string with one
  character per byte, given here by its character codes.
\<close>

definition ascii_whitespace :: "char \<Rightarrow> bool" where
  "ascii_whitespace c = (c \<in> set [CHR 0x09, CHR 0x0A, CHR 0x0C, CHR 0x0D, CHR '' ''])"

definition strip_padding :: "string \<Rightarrow> string" where
  "strip_padding d =
     (case rev d of
        x # y # r \<Rightarrow>
          (if x = CHR ''='' \<and> y = CHR ''='' then rev r
           else if x = CHR ''='' then rev (y # r) else d)
      | [x] \<Rightarrow> (if x = CHR ''='' then [] else d)
      | [] \<Rightarrow> d)"

fun octets :: "nat list \<Rightarrow> nat list" where
  "octets (w # x # y # z # r) =
     [w * 4 + x div 16, (x mod 16) * 16 + y div 4, (y mod 4) * 64 + z] @ octets r"
| "octets [w, x, y] = [w * 4 + x div 16, (x mod 16) * 16 + y div 4]"
| "octets [w, x] = [w * 4 + x div 16]"
| "octets r = []"

definition atob :: "string \<Rightarrow> nat list option" where
  "atob s =
     (let d = filter (\<lambda>c. \<not> ascii_whitespace c) s;
          d' = (if length d mod 4 = 0 then strip_padding d else d)
      in if length d' mod 4 = 1 then None
         else (case all_some (map b64_value d') of
                 None \<Rightarrow> None
               | Some vs \<Rightarrow> Some (octets vs)))"

section \<open>The ingestion route: \<^verbatim>\<open>src/app/api/waiver/route.ts\<close>\<close>

text \<open>
  \<^verbatim>\<open>dataUrlToBytes\<close>. \<open>Inr None\<close> is the \<^verbatim>\<open>null\<close> it returns, \<open>Inl\<close> what it throws: a
  truthy value that is not a string has no \<^verbatim>\<open>startsWith\<close> (TypeError); a string with
  no comma leaves \<^verbatim>\<open>b64\<close> undefined, which \<^verbatim>\<open>atob\<close> reads as the text \<^verbatim>\<open>undefined\<close>.
\<close>

definition dataUrlToBytes :: "json option \<Rightarrow> exn + (bytes \<times> string) option" where
  "dataUrlToBytes dataUrl =
     (case dataUrl of
        None \<Rightarrow> Inr None
      | Some v \<Rightarrow>
          if \<not> truthy v then Inr None
          else (case v of
                  JStr s \<Rightarrow>
                    if \<not> startsWith s ''data:'' then Inr None
                    else
                      (let parts = split_on CHR '','' s;
                           meta = hd parts;
                           b64 = (case tl parts of [] \<Rightarrow> ''undefined'' | b # _ \<Rightarrow> b);
                           mime = slice_string meta 5 (indexOf meta CHR '';'')
                       in case atob b64 of
                            None \<Rightarrow> Inl InvalidCharacterError
                          | Some bin \<Rightarrow> Inr (Some (map of_nat bin, mime)))
                | _ \<Rightarrow> Inl TypeError))"

subsection \<open>The outside world\<close>

text \<open>
  What the services answer is not decided by the handler; it is a parameter of the
  model. A storage upload and a database insert of the client library resolve to a
  result that carries an error or none, or their promise rejects; the error of an
  insert is read by its \<^verbatim>\<open>message\<close>, \<^verbatim>\<open>details\<close> and \<^verbatim>\<open>hint\<close>, any of which may be
  \<^verbatim>\<open>undefined\<close>. The mail request
  rejects, or resolves to a response with its \<^verbatim>\<open>ok\<close> flag, its status and the outcome of
  reading its text.
\<close>

datatype upload_result = UploadStored | UploadError | UploadRejects

datatype insert_result =
    InsertOk
  | InsertError "json option" "json option" "json option"
  | InsertRejects

datatype fetch_result = FetchRejects | Responded bool nat "string option"

record env =
  now_ms :: int
  now_iso :: string
  storage_upload :: "string \<Rightarrow> upload_result"
  db_insert :: insert_result
  brevo_fetch :: fetch_result

text \<open>What the handler does to the outside world, in the order it does it.\<close>

datatype event =
    Upload string bytes string
  | Insert "(string \<times> json) list"
  | Dispatch json string
  | LogError string
  | LogInfo string

record response =
  status :: nat
  payload :: "(string \<times> json) list"

subsection \<open>\<^verbatim>\<open>sendAftercareEmail\<close>\<close>

definition js_space :: "char \<Rightarrow> bool" where
  "js_space c =
     (c \<in> set [CHR 0x09, CHR 0x0A, CHR 0x0B, CHR 0x0C, CHR 0x0D, CHR '' '', CHR 0xA0])"

definition trim :: "string \<Rightarrow> string" where
  "trim s = rev (dropWhile js_space (rev (dropWhile js_space s)))"

text \<open>\<^verbatim>\<open>(name || "").trim().split(/\s+/)[0] || "there"\<close>, on a string.\<close>

definition first_name :: "string \<Rightarrow> string" where
  "first_name s =
     (let tok = takeWhile (\<lambda>c. \<not> js_space c) (trim s)
      in if tok = [] then ''there'' else tok)"

text \<open>
  The recipient and the first name decide the request sent to the mail service. A
  truthy name that is not a string has no \<^verbatim>\<open>trim\<close>: a TypeError before any request.
\<close>

definition sendAftercareEmail :: "env \<Rightarrow> json \<Rightarrow> json option \<Rightarrow> (exn + unit) \<times> event list" where
  "sendAftercareEmail e rcpt name =
     (case (if truthy_opt name
            then (case name of Some (JStr s) \<Rightarrow> Inr s | _ \<Rightarrow> Inl TypeError)
            else Inr []) of
        Inl x \<Rightarrow> (Inl x, [])
      | Inr s \<Rightarrow>
          (let sent = Dispatch rcpt (first_name s)
           in case brevo_fetch e of
                FetchRejects \<Rightarrow> (Inl FetchRejected, [sent])
              | Responded ok st txt \<Rightarrow>
                  if \<not> ok
                  then (case txt of
                          None \<Rightarrow> (Inl TextRejected, [sent])
                        | Some t \<Rightarrow> (Inr (), [sent, LogError ''Brevo send error'']))
                  else (Inr (), [sent, LogInfo ''Brevo send ok''])))"

subsection \<open>\<^verbatim>\<open>POST\<close>\<close>

text \<open>\<^verbatim>\<open>body?.waiver_id || `BAT-${Date.now()}`\<close>\<close>

definition resolve_waiver_id :: "env \<Rightarrow> json \<Rightarrow> json" where
  "resolve_waiver_id e body =
     (case get_prop body ''waiver_id'' of
        None \<Rightarrow> JStr (''BAT-'' @ dec_int (now_ms e))
      | Some v \<Rightarrow> if truthy v then v else JStr (''BAT-'' @ dec_int (now_ms e)))"

text \<open>
  The signature step (lines 85 to 96): the decoded bytes are uploaded under
  \<^verbatim>\<open>waivers/<waiver_id>/signature.png\<close>, the path is stored in the body and the embedded
  field is deleted from it.
\<close>

definition upload_signature :: "json \<Rightarrow> json \<Rightarrow> (exn + json) \<times> event list" where
  "upload_signature waiver_id body =
     (case dataUrlToBytes (get_prop body ''signature_png'') of
        Inl x \<Rightarrow> (Inl x, [])
      | Inr None \<Rightarrow> (Inr body, [])
      | Inr (Some (data, mime)) \<Rightarrow>
          (case to_string waiver_id of
             None \<Rightarrow> (Inl TypeError, [])
           | Some w \<Rightarrow>
               (let path = ''waivers/'' @ w @ ''/signature.png''
                in (Inr (delete_prop (set_prop body ''signature_path'' (JStr path)) ''signature_png''),
                    [Upload path data ''image/png'']))))"

text \<open>\<^verbatim>\<open>idFront.mime.split("/")[1] || "png"\<close>\<close>

definition mime_ext :: "string \<Rightarrow> string" where
  "mime_ext mime =
     (case split_on CHR ''/'' mime of
        a # b # r \<Rightarrow> (if b = [] then ''png'' else b)
      | _ \<Rightarrow> ''png'')"

text \<open>The ID photo step (lines 98 to 110).\<close>

definition upload_id_front :: "json \<Rightarrow> json \<Rightarrow> (exn + json) \<times> event list" where
  "upload_id_front waiver_id body =
     (case dataUrlToBytes (get_prop body ''id_photo_front'') of
        Inl x \<Rightarrow> (Inl x, [])
      | Inr None \<Rightarrow> (Inr body, [])
      | Inr (Some (data, mime)) \<Rightarrow>
          (case to_string waiver_id of
             None \<Rightarrow> (Inl TypeError, [])
           | Some w \<Rightarrow>
               (let path = ''waivers/'' @ w @ ''/id_front.'' @ mime_ext mime
                in (Inr (delete_prop (set_prop body ''id_photo_front_path'' (JStr path)) ''id_photo_front''),
                    [Upload path data mime]))))"

text \<open>\<^verbatim>\<open>await Promise.all(uploads)\<close> throws when one of the issued uploads rejects.\<close>

fun upload_rejects :: "env \<Rightarrow> event \<Rightarrow> bool" where
  "upload_rejects e (Upload path data mime) = (storage_upload e path = UploadRejects)"
| "upload_rejects e ev = False"

definition insertPayload :: "env \<Rightarrow> json \<Rightarrow> json \<Rightarrow> (string \<times> json) list" where
  "insertPayload e waiver_id body =
     [(''waiver_id'', waiver_id),
      (''client_name'', or_null (get_prop body ''client_name'')),
      (''email'', or_null (get_prop body ''email'')),
      (''phone'', or_null (get_prop body ''phone'')),
      (''dob'', or_null (get_prop body ''dob'')),
      (''procedure_type'', or_null (get_prop body ''procedure_type'')),
      (''procedure_site'', or_null (get_prop body ''procedure_site'')),
      (''signature_path'', or_null (get_prop body ''signature_path'')),
      (''id_photo_front_path'', or_null (get_prop body ''id_photo_front_path'')),
      (''send_aftercare'', JBool (truthy_opt (get_prop body ''send_aftercare''))),
      (''timestamp_iso'', JStr (now_iso e))]"

definition bad_request :: response where
  "bad_request =
     \<lparr>status = 400,
      payload = [(''ok'', JBool False), (''error'', JStr ''Missing client_name or email'')]\<rparr>"

definition db_failure :: "json option \<Rightarrow> json option \<Rightarrow> json option \<Rightarrow> response" where
  "db_failure m d h =
     \<lparr>status = 500,
      payload =
        defined_properties
          [(''ok'', Some (JBool False)), (''error'', m), (''details'', d), (''hint'', h)]\<rparr>"

definition success :: "json \<Rightarrow> response" where
  "success waiver_id = \<lparr>status = 200, payload = [(''ok'', JBool True), (''waiver_id'', waiver_id)]\<rparr>"

definition server_error :: response where
  "server_error = \<lparr>status = 500, payload = [(''ok'', JBool False), (''error'', JStr ''Server error'')]\<rparr>"

text \<open>
  From \<^verbatim>\<open>await Promise.all(uploads)\<close> to the end of the \<^verbatim>\<open>try\<close> block (lines 112 to
  143): \<open>t\<close> holds the uploads issued so far.
\<close>

definition insert_and_notify ::
  "env \<Rightarrow> json \<Rightarrow> json \<Rightarrow> event list \<Rightarrow> (exn + response) \<times> event list" where
  "insert_and_notify e waiver_id body t =
     (if list_ex (upload_rejects e) t
      then (Inl UploadRejected, t)
      else
        (let t3 = t @ [Insert (insertPayload e waiver_id body)]
         in case db_insert e of
              InsertRejects \<Rightarrow> (Inl InsertRejected, t3)
            | InsertError m d h \<Rightarrow>
                (Inr (db_failure m d h), t3 @ [LogError ''DB insert error''])
            | InsertOk \<Rightarrow>
                if truthy_opt (get_prop body ''send_aftercare'')
                   \<and> truthy_opt (get_prop body ''email'')
                then
                  (case sendAftercareEmail e (or_null (get_prop body ''email''))
                          (get_prop body ''client_name'') of
                     (Inl x, t4) \<Rightarrow> (Inl x, t3 @ t4)
                   | (Inr u, t4) \<Rightarrow> (Inr (success waiver_id), t3 @ t4))
                else (Inr (success waiver_id), t3)))"

text \<open>
  Lines 82 to 143, what follows the validation: the two attachment steps, then the
  insert and the notification.
\<close>

definition attach_and_store :: "env \<Rightarrow> json \<Rightarrow> json \<Rightarrow> (exn + response) \<times> event list" where
  "attach_and_store e waiver_id body =
     (case upload_signature waiver_id body of
        (Inl x, t1) \<Rightarrow> (Inl x, t1)
      | (Inr body1, t1) \<Rightarrow>
          (case upload_id_front waiver_id body1 of
             (Inl x, t2) \<Rightarrow> (Inl x, t1 @ t2)
           | (Inr body2, t2) \<Rightarrow> insert_and_notify e waiver_id body2 (t1 @ t2)))"

text \<open>
  The body of the \<^verbatim>\<open>try\<close> block, after the request body has been parsed: a response
  or the exception thrown, with the events that happened until then.
\<close>

definition POST_try :: "env \<Rightarrow> json \<Rightarrow> (exn + response) \<times> event list" where
  "POST_try e body =
     (let waiver_id = resolve_waiver_id e body
      in if \<not> truthy_opt (get_prop body ''client_name'') \<or> \<not> truthy_opt (get_prop body ''email'')
         then (Inr bad_request, [])
         else attach_and_store e waiver_id body)"

text \<open>
  The handler: \<open>None\<close> is a request whose body is not JSON, so that \<^verbatim>\<open>req.json()\<close>
  rejects. Every exception ends in the \<^verbatim>\<open>catch\<close>: it is logged and answered with 500.
\<close>

definition POST :: "env \<Rightarrow> json option \<Rightarrow> response \<times> event list" where
  "POST e req =
     (case req of
        None \<Rightarrow> (server_error, [LogError ''Handler exception''])
      | Some body \<Rightarrow>
          (case POST_try e body of
             (Inl x, t) \<Rightarrow> (server_error, t @ [LogError ''Handler exception''])
           | (Inr r, t) \<Rightarrow> (r, t)))"

text \<open>Observations of a run.\<close>

fun is_upload :: "event \<Rightarrow> bool" where
  "is_upload (Upload path data mime) = True"
| "is_upload ev = False"

fun is_insert :: "event \<Rightarrow> bool" where
  "is_insert (Insert row) = True"
| "is_insert ev = False"

fun is_dispatch :: "event \<Rightarrow> bool" where
  "is_dispatch (Dispatch rcpt first) = True"
| "is_dispatch ev = False"

section \<open>Example runs\<close>

text \<open>An outside world in which every service succeeds.\<close>

definition calm :: env where
  "calm =
     \<lparr>now_ms = 1700000000000, now_iso = ''2023-11-14T22:13:20.000Z'',
      storage_upload = (\<lambda>path. UploadStored), db_insert = InsertOk,
      brevo_fetch = Responded True 201 (Some ''{}'')\<rparr>"

text \<open>A submission with both attachments: the bytes ABC as signature, the byte D as photo.\<close>

definition ann :: json where
  "ann =
     JObj [(''waiver_id'', JStr ''BAT-LOCAL-4711''),
           (''client_name'', JStr ''Ann Lee''),
           (''email'', JStr ''ann@example.org''),
           (''signature_png'', JStr ''data:image/png;base64,QUJD''),
           (''id_photo_front'', JStr ''data:image/jpeg;base64,RA==''),
           (''send_aftercare'', JBool True)]"

text \<open>The same client, with an empty \<^verbatim>\<open>waiver_id\<close> and no photo.\<close>

definition ann_blank_id :: json where
  "ann_blank_id =
     JObj [(''waiver_id'', JStr []),
           (''client_name'', JStr ''Ann Lee''),
           (''email'', JStr ''ann@example.org''),
           (''signature_png'', JStr ''data:image/png;base64,QUJD''),
           (''send_aftercare'', JBool False)]"

text \<open>A body with no embedded field that carries a \<^verbatim>\<open>signature_path\<close> of its own.\<close>

definition forged :: json where
  "forged =
     JObj [(''client_name'', JStr ''Ann Lee''),
           (''email'', JStr ''ann@example.org''),
           (''signature_path'', JStr ''data:image/png;base64,QUJD'')]"

text \<open>The same submission with a photo whose payload is not base64.\<close>

definition ann_bad_photo :: json where
  "ann_bad_photo =
     JObj [(''waiver_id'', JStr ''BAT-LOCAL-4711''),
           (''client_name'', JStr ''Ann Lee''),
           (''email'', JStr ''ann@example.org''),
           (''signature_png'', JStr ''data:image/png;base64,QUJD''),
           (''id_photo_front'', JStr ''data:image/jpeg;base64,%%%%''),
           (''send_aftercare'', JBool True)]"

text \<open>A submission whose photo field is text that is no data URL.\<close>

definition ann_plain_photo :: json where
  "ann_plain_photo =
     JObj [(''waiver_id'', JStr ''BAT-LOCAL-4711''),
           (''client_name'', JStr ''Ann Lee''),
           (''email'', JStr ''ann@example.org''),
           (''signature_png'', JStr ''data:image/png;base64,QUJD''),
           (''id_photo_front'', JStr ''photo.jpg'')]"

text \<open>The storage answers every upload with an error result.\<close>

definition storage_refuses :: env where
  "storage_refuses = calm\<lparr>storage_upload := (\<lambda>path. UploadError)\<rparr>"

text \<open>The storage cannot be reached in a way that rejects the upload's promise.\<close>

definition storage_throws :: env where
  "storage_throws = calm\<lparr>storage_upload := (\<lambda>path. UploadRejects)\<rparr>"

text \<open>The mail service cannot be reached: the request rejects.\<close>

definition mail_down :: env where
  "mail_down = calm\<lparr>brevo_fetch := FetchRejects\<rparr>"

text \<open>The mail service answers with an error status.\<close>

definition mail_refuses :: env where
  "mail_refuses = calm\<lparr>brevo_fetch := Responded False 401 (Some ''unauthorized'')\<rparr>"

section \<open>Notions of the specification\<close>

text \<open>
  An embedded field the decoder answers with \<^verbatim>\<open>null\<close>: it is absent, falsy, or a string
  that does not begin with \<^verbatim>\<open>data:\<close>.
\<close>

fun not_provided :: "json option \<Rightarrow> bool" where
  "not_provided None = True"
| "not_provided (Some (JStr s)) = (\<not> startsWith s ''data:'')"
| "not_provided (Some v) = (\<not> truthy v)"



section \<open>The waiver page: \<^verbatim>\<open>src/app/waiver/page.tsx\<close>\<close>

subsection \<open>\<^verbatim>\<open>fileToDataURL\<close>\<close>

text \<open>A selected file, by the two things the encoder reads: its type and its bytes.\<close>

record js_file =
  file_type :: string
  file_bytes :: bytes

definition fileToDataURL :: "js_file option \<Rightarrow> string option" where
  "fileToDataURL f =
     (case f of
        None \<Rightarrow> None
      | Some fl \<Rightarrow> Some (''data:'' @ file_type fl @ '';base64,'' @ toBase64 (file_bytes fl)))"

subsection \<open>The signature pad\<close>

text \<open>
  A canvas is its bitmap (\<open>width\<close> by \<open>height\<close> pixels, each red, green, blue and
  alpha from 0 to 255) and the state of its 2d context that the pad uses: the current
  transform, which is only ever a scaling, the line width and the two styles.
  \<open>context2d\<close> is whether \<^verbatim>\<open>getContext('2d')\<close> gives a context.
\<close>

datatype rgba = RGBA (red: nat) (green: nat) (blue: nat) (alpha: nat)

record canvas =
  width :: nat
  height :: nat
  bitmap :: "nat \<Rightarrow> nat \<Rightarrow> rgba"
  context2d :: bool
  ctx_scale :: rat
  lineWidth :: rat
  strokeStyle :: rgba
  fillStyle :: rgba

text \<open>
  What the pad reads of the page around it: the layout and the screen. The numbers of
  the runtime are doubles: \<open>times\<close> is their product, the exact product rounded to a
  double.
\<close>

record page =
  parent_clientWidth :: nat
  devicePixelRatio :: rat
  times :: "rat \<Rightarrow> rat \<Rightarrow> rat"

text \<open>
  Assigning \<^verbatim>\<open>c.width\<close> or \<^verbatim>\<open>c.height\<close> clears the bitmap to transparent black and
  resets the context to its defaults.
\<close>

definition set_size :: "nat \<Rightarrow> nat \<Rightarrow> canvas \<Rightarrow> canvas" where
  "set_size w h c =
     c\<lparr>width := w, height := h, bitmap := (\<lambda>x y. RGBA 0 0 0 0), ctx_scale := 1,
       lineWidth := 1, strokeStyle := RGBA 0 0 0 255, fillStyle := RGBA 0 0 0 255\<rparr>"

text \<open>
  Painting a colour over a pixel of which the fraction \<open>k\<close> is covered (source-over
  compositing), each channel rounded to the nearest byte.
\<close>

definition to_byte :: "rat \<Rightarrow> nat" where
  "to_byte q = nat \<lfloor>q + 1 / 2\<rfloor>"

definition blend :: "rat \<Rightarrow> rgba \<Rightarrow> rgba \<Rightarrow> rgba" where
  "blend k src dst =
     (let as = k * of_nat (alpha src) / 255;
          ad = of_nat (alpha dst) / 255;
          ao = as + ad * (1 - as);
          mix = (\<lambda>cs cd. if ao = 0 then 0
                          else to_byte ((as * of_nat cs + ad * (1 - as) * of_nat cd) / ao))
      in RGBA (mix (red src) (red dst)) (mix (green src) (green dst))
              (mix (blue src) (blue dst)) (to_byte (255 * ao)))"

text \<open>The length of the part of the pixel interval \<open>[p, p + 1)\<close> that lies in \<open>[lo, hi)\<close>.\<close>

definition cover :: "rat \<Rightarrow> rat \<Rightarrow> nat \<Rightarrow> rat" where
  "cover lo hi p = max 0 (min hi (of_nat p + 1) - max lo (of_nat p))"

text \<open>\<^verbatim>\<open>ctx.fillRect(x, y, w, h)\<close> under the current scaling.\<close>

definition fillRect :: "rat \<Rightarrow> rat \<Rightarrow> rat \<Rightarrow> rat \<Rightarrow> canvas \<Rightarrow> canvas" where
  "fillRect x y w h c =
     c\<lparr>bitmap :=
         (\<lambda>px py.
            let s = ctx_scale c;
                k = cover (x * s) ((x + w) * s) px * cover (y * s) ((y + h) * s) py
            in if k = 0 then bitmap c px py else blend k (fillStyle c) (bitmap c px py))\<rparr>"

text \<open>
  \<^verbatim>\<open>ctx.clearRect(0, 0, c.width, c.height)\<close> under the identity transform, between
  \<^verbatim>\<open>save\<close> and \<^verbatim>\<open>restore\<close>: the context state is as before.
\<close>

definition clearRect_all :: "canvas \<Rightarrow> canvas" where
  "clearRect_all c =
     c\<lparr>bitmap :=
         (\<lambda>px py. if px < width c \<and> py < height c then RGBA 0 0 0 0 else bitmap c px py)\<rparr>"

text \<open>
  \<^verbatim>\<open>resize\<close> (lines 130 to 149). Without a canvas it does nothing. The canvas takes the
  width of its parent and the height 160, in device pixels (the rounded products,
  floored); then the context is scaled, styled, and the whole surface is filled with
  \<^verbatim>\<open>#fff\<close>. The rasteriser's own arithmetic is taken as exact.
\<close>

definition resize :: "page \<Rightarrow> canvas option \<Rightarrow> exn + canvas option" where
  "resize pg cref =
     (case cref of
        None \<Rightarrow> Inr None
      | Some c \<Rightarrow>
          (let dpr = max 1 (if devicePixelRatio pg = 0 then 1 else devicePixelRatio pg);
               w = parent_clientWidth pg;
               h = 160;
               c1 = set_size (nat \<lfloor>times pg (of_nat w) dpr\<rfloor>)
                      (nat \<lfloor>times pg (of_nat h) dpr\<rfloor>) c
           in if \<not> context2d c1 then Inl TypeError
              else
                (let c2 = c1\<lparr>ctx_scale := 1\<rparr>;
                     c3 = c2\<lparr>ctx_scale := ctx_scale c2 * dpr\<rparr>;
                     c4 = c3\<lparr>lineWidth := 2, strokeStyle := RGBA 17 17 17 255,
                            fillStyle := RGBA 255 255 255 255\<rparr>
                 in Inr (Some (fillRect 0 0 (of_nat w) (of_nat h) c4)))))"

text \<open>\<^verbatim>\<open>clear\<close> (lines 151 to 162): the bitmap is wiped, then \<^verbatim>\<open>resize\<close> runs.\<close>

definition clear :: "page \<Rightarrow> canvas option \<Rightarrow> exn + canvas option" where
  "clear pg cref =
     (case cref of
        None \<Rightarrow> Inr None
      | Some c \<Rightarrow>
          if \<not> context2d c then Inl TypeError
          else resize pg (Some (clearRect_all c)))"

text \<open>
  \<^verbatim>\<open>ctx.getImageData(0, 0, width, height).data\<close>: the array of bytes, four to a pixel,
  the pixels row by row; \<open>None\<close> beyond its end, where a read gives \<^verbatim>\<open>undefined\<close>.
\<close>

fun channel :: "nat \<Rightarrow> rgba \<Rightarrow> nat" where
  "channel 0 p = red p"
| "channel (Suc 0) p = green p"
| "channel (Suc (Suc 0)) p = blue p"
| "channel n p = alpha p"

definition getImageData :: "canvas \<Rightarrow> nat \<Rightarrow> nat option" where
  "getImageData c k =
     (if k < width c * height c * 4
      then Some (channel (k mod 4) (bitmap c ((k div 4) mod width c) ((k div 4) div width c)))
      else None)"

text \<open>
  \<^verbatim>\<open>hasAnyInk\<close> (lines 225 to 239). The inner loop over \<open>x\<close> and the outer loop over
  \<open>y\<close>, both in steps of four; \<^verbatim>\<open>a > 0\<close> is false for \<^verbatim>\<open>undefined\<close>.
\<close>

function scan_row :: "canvas \<Rightarrow> nat \<Rightarrow> nat \<Rightarrow> bool" where
  "scan_row c y x =
     (if x < width c
      then (case getImageData c ((y * width c + x) * 4 + 3) of
              Some a \<Rightarrow> if a > 0 then True else scan_row c y (x + 4)
            | None \<Rightarrow> scan_row c y (x + 4))
      else False)"
  by pat_completeness auto
termination
  by (relation "measure (\<lambda>(c, y, x). width c - x)") auto

function scan_rows :: "canvas \<Rightarrow> nat \<Rightarrow> bool" where
  "scan_rows c y =
     (if y < height c
      then (if scan_row c y 0 then True else scan_rows c (y + 4))
      else False)"
  by pat_completeness auto
termination
  by (relation "measure (\<lambda>(c, y). height c - y)") auto

definition hasAnyInk :: "canvas \<Rightarrow> bool" where
  "hasAnyInk c =
     (if \<not> context2d c then False
      else if width c = 0 \<or> height c = 0 then False
      else scan_rows c 0)"

text \<open>
  The pointer handlers (lines 186 to 205). Which pixels a stroked segment covers, and
  how much of each, is the rasteriser's business: \<open>raster\<close> gives that coverage, between
  0 and 1, for a segment on a canvas.
\<close>

record pad =
  canvasRef :: "canvas option"
  drawing :: bool
  lastX :: rat
  lastY :: rat

definition stroke_line :: "(nat \<Rightarrow> nat \<Rightarrow> rat) \<Rightarrow> canvas \<Rightarrow> canvas" where
  "stroke_line cov c =
     c\<lparr>bitmap :=
         (\<lambda>px py.
            if px < width c \<and> py < height c \<and> cov px py > 0
            then blend (cov px py) (strokeStyle c) (bitmap c px py)
            else bitmap c px py)\<rparr>"

definition down :: "rat \<times> rat \<Rightarrow> pad \<Rightarrow> pad" where
  "down p pd = pd\<lparr>drawing := True, lastX := fst p, lastY := snd p\<rparr>"

definition move ::
  "(rat \<times> rat \<Rightarrow> rat \<times> rat \<Rightarrow> canvas \<Rightarrow> nat \<Rightarrow> nat \<Rightarrow> rat) \<Rightarrow> rat \<times> rat \<Rightarrow> pad \<Rightarrow> pad" where
  "move raster p pd =
     (if \<not> drawing pd then pd
      else pd\<lparr>canvasRef := map_option (\<lambda>c. stroke_line (raster (lastX pd, lastY pd) p c) c)
                               (canvasRef pd),
              lastX := fst p, lastY := snd p\<rparr>)"

definition up :: "pad \<Rightarrow> pad" where
  "up pd = pd\<lparr>drawing := False\<rparr>"

text \<open>
  A phone in portrait: a parent 300 CSS pixels wide, two device pixels to each. On
  these numbers the products are integers, which doubles hold exactly.
\<close>

definition handset :: page where
  "handset =
     \<lparr>parent_clientWidth = 300, devicePixelRatio = 2, times = (\<lambda>a b. a * b)\<rparr>"

text \<open>A canvas as the browser creates it, before the pad has touched it.\<close>

definition fresh_canvas :: canvas where
  "fresh_canvas =
     \<lparr>width = 300, height = 150, bitmap = (\<lambda>x y. RGBA 0 0 0 0), context2d = True,
      ctx_scale = 1, lineWidth = 1, strokeStyle = RGBA 0 0 0 255, fillStyle = RGBA 0 0 0 255\<rparr>"

subsection \<open>\<^verbatim>\<open>handleSubmit\<close>\<close>






















section \<open>Properties of the ingestion route\<close>

lemmas route_defs =
  POST_def POST_try_def attach_and_store_def insert_and_notify_def upload_signature_def upload_id_front_def dataUrlToBytes_def
  startsWith_def atob_def slice_string_def clamp_index_def resolve_waiver_id_def dec_int_def
  ascii_whitespace_def strip_padding_def b64_value_def b64_alphabet_def mime_ext_def
  insertPayload_def sendAftercareEmail_def first_name_def trim_def js_space_def
  success_def server_error_def bad_request_def db_failure_def Let_def

subsection \<open>Validation comes before every side effect\<close>

text \<open>
  C1. A request whose parsed body lacks a truthy \<^verbatim>\<open>client_name\<close> or a truthy \<^verbatim>\<open>email\<close>
  is answered with status 400 and \<^verbatim>\<open>ok: false\<close>, and the handler has done nothing to
  the storage or the database (nor anything else) by then.
\<close>

theorem missing_required_field_rejected:
  "\<not> truthy_opt (get_prop body ''client_name'') \<or> \<not> truthy_opt (get_prop body ''email'') \<Longrightarrow>
   status (fst (POST e (Some body))) = 400 \<and>
   map_of (payload (fst (POST e (Some body)))) ''ok'' = Some (JBool False) \<and>
   snd (POST e (Some body)) = []"
  by (auto simp: POST_def POST_try_def bad_request_def)

theorem missing_required_field_rejected_witness:
  "\<not> truthy_opt (get_prop (JObj [(''email'', JStr ''a@b.c'')]) ''client_name'') \<and>
   status (fst (POST calm (Some (JObj [(''email'', JStr ''a@b.c'')])))) = 400 \<and>
   map_of (payload (fst (POST calm (Some (JObj [(''email'', JStr ''a@b.c'')]))))) ''ok''
     = Some (JBool False) \<and>
   snd (POST calm (Some (JObj [(''email'', JStr ''a@b.c'')]))) = []"
  using missing_required_field_rejected [of "JObj [(''email'', JStr ''a@b.c'')]" calm]
  by simp

subsection \<open>What a run can upload and insert\<close>

lemma upload_signature_events:
  "upload_signature w b = (r, t) \<Longrightarrow> ev \<in> set t \<Longrightarrow>
   \<exists>ws data. to_string w = Some ws \<and>
     ev = Upload (''waivers/'' @ ws @ ''/signature.png'') data ''image/png''"
  by (auto simp: upload_signature_def Let_def split: sum.splits option.splits prod.splits)

lemma upload_id_front_events:
  "upload_id_front w b = (r, t) \<Longrightarrow> ev \<in> set t \<Longrightarrow>
   \<exists>ws data mime. to_string w = Some ws \<and>
     ev = Upload (''waivers/'' @ ws @ ''/id_front.'' @ mime_ext mime) data mime"
  by (auto simp: upload_id_front_def Let_def split: sum.splits option.splits prod.splits)

lemma sendAftercareEmail_events:
  "sendAftercareEmail e rcpt name = (r, t) \<Longrightarrow> ev \<in> set t \<Longrightarrow>
   \<not> is_upload ev \<and> \<not> is_insert ev"
  by (auto simp: sendAftercareEmail_def Let_def
      split: sum.splits option.splits fetch_result.splits if_splits json.splits)

lemma insert_and_notify_events:
  assumes "ev \<in> set (snd (insert_and_notify e w b t))"
  shows "ev \<in> set t \<or> ev = Insert (insertPayload e w b) \<or> (\<not> is_upload ev \<and> \<not> is_insert ev)"
  using assms
  by (auto simp: insert_and_notify_def Let_def
      split: if_splits prod.splits sum.splits insert_result.splits
      dest: sendAftercareEmail_events)

lemma insert_and_notify_keeps:
  "set t \<subseteq> set (snd (insert_and_notify e w b t))"
  by (auto simp: insert_and_notify_def Let_def
      split: if_splits prod.splits sum.splits insert_result.splits)


lemma POST_try_cases:
  obtains
    (invalid) "\<not> truthy_opt (get_prop body ''client_name'') \<or> \<not> truthy_opt (get_prop body ''email'')"
      "POST_try e body = (Inr bad_request, [])"
  | (signature_throws) x t1 where
      "truthy_opt (get_prop body ''client_name'')" "truthy_opt (get_prop body ''email'')"
      "upload_signature (resolve_waiver_id e body) body = (Inl x, t1)"
      "POST_try e body = (Inl x, t1)"
  | (id_front_throws) body1 t1 x t2 where
      "truthy_opt (get_prop body ''client_name'')" "truthy_opt (get_prop body ''email'')"
      "upload_signature (resolve_waiver_id e body) body = (Inr body1, t1)"
      "upload_id_front (resolve_waiver_id e body) body1 = (Inl x, t2)"
      "POST_try e body = (Inl x, t1 @ t2)"
  | (decoded) body1 t1 body2 t2 where
      "truthy_opt (get_prop body ''client_name'')" "truthy_opt (get_prop body ''email'')"
      "upload_signature (resolve_waiver_id e body) body = (Inr body1, t1)"
      "upload_id_front (resolve_waiver_id e body) body1 = (Inr body2, t2)"
      "POST_try e body = insert_and_notify e (resolve_waiver_id e body) body2 (t1 @ t2)"
proof (cases "truthy_opt (get_prop body ''client_name'') \<and> truthy_opt (get_prop body ''email'')")
  case False
  then show ?thesis using invalid by (simp add: POST_try_def)
next
  case valid: True
  obtain r1 t1 where s: "upload_signature (resolve_waiver_id e body) body = (r1, t1)"
    by (cases "upload_signature (resolve_waiver_id e body) body") simp
  show ?thesis
  proof (cases r1)
    case (Inl x)
    with s valid show ?thesis using signature_throws by (simp add: POST_try_def attach_and_store_def)
  next
    case (Inr body1)
    obtain r2 t2 where i: "upload_id_front (resolve_waiver_id e body) body1 = (r2, t2)"
      by (cases "upload_id_front (resolve_waiver_id e body) body1") simp
    show ?thesis
    proof (cases r2)
      case (Inl x)
      with s i Inr valid show ?thesis using id_front_throws by (simp add: POST_try_def attach_and_store_def)
    next
      case body2: (Inr body2)
      with s i Inr valid show ?thesis using decoded by (simp add: POST_try_def attach_and_store_def)
    qed
  qed
qed

lemma upload_signature_paths:
  "upload_signature w b = (r, t) \<Longrightarrow> Upload path data mime \<in> set t \<Longrightarrow>
   \<exists>ws rest. to_string w = Some ws \<and> path = ''waivers/'' @ ws @ ''/'' @ rest"
  by (drule (1) upload_signature_events) auto

lemma upload_id_front_paths:
  "upload_id_front w b = (r, t) \<Longrightarrow> Upload path data mime \<in> set t \<Longrightarrow>
   \<exists>ws rest. to_string w = Some ws \<and> path = ''waivers/'' @ ws @ ''/'' @ rest"
  by (drule (1) upload_id_front_events) auto

lemma upload_signature_no_insert:
  "upload_signature w b = (r, t) \<Longrightarrow> Insert row \<notin> set t"
  by (auto dest: upload_signature_events)

lemma upload_id_front_no_insert:
  "upload_id_front w b = (r, t) \<Longrightarrow> Insert row \<notin> set t"
  by (auto dest: upload_id_front_events)

lemma POST_try_uploads:
  assumes "Upload path data mime \<in> set (snd (POST_try e body))"
  shows "\<exists>ws rest. to_string (resolve_waiver_id e body) = Some ws \<and>
           path = ''waivers/'' @ ws @ ''/'' @ rest"
proof (cases e body rule: POST_try_cases)
  case invalid
  with assms show ?thesis by simp
next
  case (signature_throws x t1)
  with assms have "Upload path data mime \<in> set t1" by simp
  then show ?thesis by (rule upload_signature_paths [OF signature_throws(3)])
next
  case (id_front_throws body1 t1 x t2)
  with assms have "Upload path data mime \<in> set t1 \<or> Upload path data mime \<in> set t2" by simp
  then show ?thesis
    using upload_signature_paths [OF id_front_throws(3)]
      upload_id_front_paths [OF id_front_throws(4)] by blast
next
  case (decoded body1 t1 body2 t2)
  with assms insert_and_notify_events [of "Upload path data mime" e _ body2 "t1 @ t2"]
  have "Upload path data mime \<in> set t1 \<or> Upload path data mime \<in> set t2" by auto
  then show ?thesis
    using upload_signature_paths [OF decoded(3)]
      upload_id_front_paths [OF decoded(4)] by blast
qed

lemma POST_try_insert_row:
  assumes "Insert row \<in> set (snd (POST_try e body))"
  shows "\<exists>kvs body1 t1 body2 t2. body = JObj kvs \<and>
           upload_signature (resolve_waiver_id e body) body = (Inr body1, t1) \<and>
           upload_id_front (resolve_waiver_id e body) body1 = (Inr body2, t2) \<and>
           row = insertPayload e (resolve_waiver_id e body) body2 \<and>
           set t1 \<union> set t2 \<subseteq> set (snd (POST_try e body))"
proof (cases e body rule: POST_try_cases)
  case invalid
  with assms show ?thesis by simp
next
  case (signature_throws x t1)
  with assms upload_signature_no_insert [OF signature_throws(3)]
  show ?thesis by auto
next
  case (id_front_throws body1 t1 x t2)
  with assms upload_signature_no_insert [OF id_front_throws(3)]
    upload_id_front_no_insert [OF id_front_throws(4)]
  show ?thesis by auto
next
  case (decoded body1 t1 body2 t2)
  from decoded(1) obtain kvs where obj: "body = JObj kvs" by (cases body) simp_all
  have "Insert row \<notin> set t1" "Insert row \<notin> set t2"
    using upload_signature_no_insert [OF decoded(3)]
      upload_id_front_no_insert [OF decoded(4)] by auto
  with assms decoded(5) insert_and_notify_events [of "Insert row" e _ body2 "t1 @ t2"]
  have "row = insertPayload e (resolve_waiver_id e body) body2" by auto
  moreover have "set t1 \<union> set t2 \<subseteq> set (snd (POST_try e body))"
    using insert_and_notify_keeps [of "t1 @ t2" e _ body2] decoded(5) by simp
  ultimately show ?thesis using obj decoded(3,4) by blast
qed

lemma POST_events:
  "set (snd (POST e (Some body))) \<subseteq> set (snd (POST_try e body)) \<union> {LogError ''Handler exception''}"
  by (auto simp: POST_def split: prod.splits sum.splits)

lemma POST_uploads:
  assumes "Upload path data mime \<in> set (snd (POST e (Some body)))"
  shows "\<exists>ws rest. to_string (resolve_waiver_id e body) = Some ws \<and>
           path = ''waivers/'' @ ws @ ''/'' @ rest"
  using assms POST_events [of e body] POST_try_uploads [of path data mime e body] by auto

lemma POST_inserts:
  assumes "Insert row \<in> set (snd (POST e (Some body)))"
  shows "\<exists>body'. row = insertPayload e (resolve_waiver_id e body) body'"
proof -
  from assms POST_events [of e body] have "Insert row \<in> set (snd (POST_try e body))" by auto
  from POST_try_insert_row [OF this] show ?thesis by blast
qed

text \<open>The two example runs, step by step.\<close>

lemma POST_calm_ann:
  "POST calm (Some ann) =
     (\<lparr>status = 200, payload = [(''ok'', JBool True), (''waiver_id'', JStr ''BAT-LOCAL-4711'')]\<rparr>,
      [Upload ''waivers/BAT-LOCAL-4711/signature.png'' [65, 66, 67] ''image/png'',
       Upload ''waivers/BAT-LOCAL-4711/id_front.jpeg'' [68] ''image/jpeg'',
       Insert [(''waiver_id'', JStr ''BAT-LOCAL-4711''),
               (''client_name'', JStr ''Ann Lee''),
               (''email'', JStr ''ann@example.org''),
               (''phone'', JNull), (''dob'', JNull),
               (''procedure_type'', JNull), (''procedure_site'', JNull),
               (''signature_path'', JStr ''waivers/BAT-LOCAL-4711/signature.png''),
               (''id_photo_front_path'', JStr ''waivers/BAT-LOCAL-4711/id_front.jpeg''),
               (''send_aftercare'', JBool True),
               (''timestamp_iso'', JStr ''2023-11-14T22:13:20.000Z'')],
       Dispatch (JStr ''ann@example.org'') ''Ann'',
       LogInfo ''Brevo send ok''])"
  by (simp add: route_defs calm_def ann_def)

lemma POST_calm_ann_blank_id:
  "POST calm (Some ann_blank_id) =
     (\<lparr>status = 200, payload = [(''ok'', JBool True), (''waiver_id'', JStr ''BAT-1700000000000'')]\<rparr>,
      [Upload ''waivers/BAT-1700000000000/signature.png'' [65, 66, 67] ''image/png'',
       Insert [(''waiver_id'', JStr ''BAT-1700000000000''),
               (''client_name'', JStr ''Ann Lee''),
               (''email'', JStr ''ann@example.org''),
               (''phone'', JNull), (''dob'', JNull),
               (''procedure_type'', JNull), (''procedure_site'', JNull),
               (''signature_path'', JStr ''waivers/BAT-1700000000000/signature.png''),
               (''id_photo_front_path'', JNull),
               (''send_aftercare'', JBool False),
               (''timestamp_iso'', JStr ''2023-11-14T22:13:20.000Z'')]])"
  by (simp add: route_defs calm_def ann_blank_id_def)

subsection \<open>The resolved identifier\<close>

lemma resolve_waiver_id_cases:
  "resolve_waiver_id e body =
     (if truthy_opt (get_prop body ''waiver_id'') then or_null (get_prop body ''waiver_id'')
      else JStr (''BAT-'' @ dec_int (now_ms e)))"
  by (simp add: resolve_waiver_id_def split: option.splits)

text \<open>
  C10. When the body carries \<^verbatim>\<open>waiver_id\<close> with a falsy value (the empty string, \<^verbatim>\<open>null\<close>,
  the number 0 or \<^verbatim>\<open>false\<close>), the client's value is discarded: the identifier is
  \<^verbatim>\<open>BAT-\<close> followed by the millisecond clock, every upload of the run goes under
  \<^verbatim>\<open>waivers/BAT-<ms>/\<close>, and every inserted row carries it as \<^verbatim>\<open>waiver_id\<close>.
\<close>

theorem falsy_waiver_id_regenerated:
  "get_prop body ''waiver_id'' = Some v \<Longrightarrow>
   v = JStr [] \<or> v = JNull \<or> v = JNum False t \<or> v = JBool False \<Longrightarrow>
   resolve_waiver_id e body = JStr (''BAT-'' @ dec_int (now_ms e)) \<and>
   (\<forall>path data mime. Upload path data mime \<in> set (snd (POST e (Some body))) \<longrightarrow>
      (\<exists>rest. path = ''waivers/BAT-'' @ dec_int (now_ms e) @ ''/'' @ rest)) \<and>
   (\<forall>row. Insert row \<in> set (snd (POST e (Some body))) \<longrightarrow>
      map_of row ''waiver_id'' = Some (JStr (''BAT-'' @ dec_int (now_ms e))))"
proof -
  assume v: "get_prop body ''waiver_id'' = Some v"
    and falsy: "v = JStr [] \<or> v = JNull \<or> v = JNum False t \<or> v = JBool False"
  from falsy have "\<not> truthy v" by auto
  with v have r: "resolve_waiver_id e body = JStr (''BAT-'' @ dec_int (now_ms e))"
    by (simp add: resolve_waiver_id_def)
  have "\<exists>rest. path = ''waivers/BAT-'' @ dec_int (now_ms e) @ ''/'' @ rest"
    if "Upload path data mime \<in> set (snd (POST e (Some body)))" for path data mime
    using POST_uploads [OF that] r by auto
  moreover have "map_of row ''waiver_id'' = Some (JStr (''BAT-'' @ dec_int (now_ms e)))"
    if "Insert row \<in> set (snd (POST e (Some body)))" for row
    using POST_inserts [OF that] r by (auto simp: insertPayload_def)
  ultimately show ?thesis using r by blast
qed

theorem falsy_waiver_id_regenerated_witness:
  "get_prop ann_blank_id ''waiver_id'' = Some (JStr []) \<and>
   resolve_waiver_id calm ann_blank_id = JStr ''BAT-1700000000000'' \<and>
   Upload ''waivers/BAT-1700000000000/signature.png'' [65, 66, 67] ''image/png''
     \<in> set (snd (POST calm (Some ann_blank_id))) \<and>
   list_ex is_insert (snd (POST calm (Some ann_blank_id)))"
proof -
  have v: "get_prop ann_blank_id ''waiver_id'' = Some (JStr [])"
    by (simp add: ann_blank_id_def)
  have clock: "''BAT-'' @ dec_int (now_ms calm) = ''BAT-1700000000000''"
    by (simp add: calm_def dec_int_def)
  show ?thesis
    using falsy_waiver_id_regenerated [OF v, of "[]" calm] v clock
    by (simp add: POST_calm_ann_blank_id)
qed

text \<open>
  C7, as the code has it. The identifier is the client's value when that value is
  truthy, and \<^verbatim>\<open>BAT-\<close> followed by the millisecond clock when it is absent or falsy.
  Every inserted row carries the identifier as \<^verbatim>\<open>waiver_id\<close>, and every upload of the
  run goes under \<^verbatim>\<open>waivers/<identifier>/\<close>, the identifier rendered as a string.
\<close>

theorem waiver_id_resolved_and_shared:
  "(truthy_opt (get_prop body ''waiver_id'') \<longrightarrow>
      get_prop body ''waiver_id'' = Some (resolve_waiver_id e body)) \<and>
   (\<not> truthy_opt (get_prop body ''waiver_id'') \<longrightarrow>
      resolve_waiver_id e body = JStr (''BAT-'' @ dec_int (now_ms e))) \<and>
   (\<forall>row. Insert row \<in> set (snd (POST e (Some body))) \<longrightarrow>
      map_of row ''waiver_id'' = Some (resolve_waiver_id e body)) \<and>
   (\<forall>path data mime. Upload path data mime \<in> set (snd (POST e (Some body))) \<longrightarrow>
      (\<exists>ws rest. to_string (resolve_waiver_id e body) = Some ws \<and>
         path = ''waivers/'' @ ws @ ''/'' @ rest))"
proof -
  have "map_of row ''waiver_id'' = Some (resolve_waiver_id e body)"
    if "Insert row \<in> set (snd (POST e (Some body)))" for row
    using POST_inserts [OF that] by (auto simp: insertPayload_def)
  moreover have "\<exists>ws rest. to_string (resolve_waiver_id e body) = Some ws \<and>
      path = ''waivers/'' @ ws @ ''/'' @ rest"
    if "Upload path data mime \<in> set (snd (POST e (Some body)))" for path data mime
    using POST_uploads [OF that] .
  moreover have "truthy_opt (get_prop body ''waiver_id'') \<longrightarrow>
      get_prop body ''waiver_id'' = Some (resolve_waiver_id e body)"
    by (cases "get_prop body ''waiver_id''") (simp_all add: resolve_waiver_id_def)
  moreover have "\<not> truthy_opt (get_prop body ''waiver_id'') \<longrightarrow>
      resolve_waiver_id e body = JStr (''BAT-'' @ dec_int (now_ms e))"
    by (simp add: resolve_waiver_id_cases)
  ultimately show ?thesis by blast
qed

theorem waiver_id_resolved_and_shared_witness:
  "truthy_opt (get_prop ann ''waiver_id'') \<and>
   resolve_waiver_id calm ann = JStr ''BAT-LOCAL-4711'' \<and>
   Insert [(''waiver_id'', JStr ''BAT-LOCAL-4711''),
           (''client_name'', JStr ''Ann Lee''),
           (''email'', JStr ''ann@example.org''),
           (''phone'', JNull), (''dob'', JNull),
           (''procedure_type'', JNull), (''procedure_site'', JNull),
           (''signature_path'', JStr ''waivers/BAT-LOCAL-4711/signature.png''),
           (''id_photo_front_path'', JStr ''waivers/BAT-LOCAL-4711/id_front.jpeg''),
           (''send_aftercare'', JBool True),
           (''timestamp_iso'', JStr ''2023-11-14T22:13:20.000Z'')]
     \<in> set (snd (POST calm (Some ann))) \<and>
   Upload ''waivers/BAT-LOCAL-4711/id_front.jpeg'' [68] ''image/jpeg''
     \<in> set (snd (POST calm (Some ann))) \<and>
   to_string (resolve_waiver_id calm ann) = Some ''BAT-LOCAL-4711''"
proof -
  have t: "truthy_opt (get_prop ann ''waiver_id'')"
    by (simp add: ann_def)
  have g: "get_prop ann ''waiver_id'' = Some (JStr ''BAT-LOCAL-4711'')"
    by (simp add: ann_def)
  from waiver_id_resolved_and_shared [of ann calm] t g
  have "resolve_waiver_id calm ann = JStr ''BAT-LOCAL-4711''" by simp
  then show ?thesis using t by (simp add: POST_calm_ann)
qed

text \<open>
  C7, as it is worded, fails on a \<^verbatim>\<open>waiver_id\<close> that is present and falsy: the body below is
  a valid submission that supplies the empty string, and the identifier is not the
  supplied value.
\<close>

theorem present_waiver_id_not_kept:
  "get_prop ann_blank_id ''waiver_id'' = Some (JStr []) \<and>
   truthy_opt (get_prop ann_blank_id ''client_name'') \<and>
   truthy_opt (get_prop ann_blank_id ''email'') \<and>
   resolve_waiver_id calm ann_blank_id \<noteq> JStr [] \<and>
   resolve_waiver_id calm ann_blank_id = JStr ''BAT-1700000000000''"
  by (simp add: ann_blank_id_def resolve_waiver_id_def calm_def dec_int_def)

subsection \<open>The inserted row\<close>

lemma map_of_set_assoc:
  "map_of (set_assoc k v kvs) k' = (if k' = k then Some v else map_of kvs k')"
  by (induction kvs) auto

lemma map_of_filter_key:
  "map_of (filter (\<lambda>kv. fst kv \<noteq> k) kvs) k' = (if k' = k then None else map_of kvs k')"
  by (induction kvs) auto

lemma get_prop_set_prop_obj:
  "get_prop (set_prop (JObj kvs) k v) k' = (if k' = k then Some v else map_of kvs k')"
  by (simp add: map_of_set_assoc)

lemma get_prop_delete_prop:
  "get_prop (delete_prop b k) k' = (if k' = k then None else get_prop b k')"
  by (cases b) (simp_all add: map_of_filter_key)


lemma get_prop_Some_obj: "get_prop b k = Some v \<Longrightarrow> \<exists>kvs. b = JObj kvs"
  by (cases b) simp_all




lemma POST_calm_forged:
  "POST calm (Some forged) =
     (\<lparr>status = 200, payload = [(''ok'', JBool True), (''waiver_id'', JStr ''BAT-1700000000000'')]\<rparr>,
      [Insert [(''waiver_id'', JStr ''BAT-1700000000000''),
               (''client_name'', JStr ''Ann Lee''),
               (''email'', JStr ''ann@example.org''),
               (''phone'', JNull), (''dob'', JNull),
               (''procedure_type'', JNull), (''procedure_site'', JNull),
               (''signature_path'', JStr ''data:image/png;base64,QUJD''),
               (''id_photo_front_path'', JNull),
               (''send_aftercare'', JBool False),
               (''timestamp_iso'', JStr ''2023-11-14T22:13:20.000Z'')]])"
  by (simp add: route_defs calm_def forged_def)



text \<open>
  C9 does not hold of the code. The row never has a column for an embedded field, but
  its path columns are read back from the body, which the client controls. The body
  below has no signature and carries a \<^verbatim>\<open>signature_path\<close> of its own, a base64 image:
  nothing is uploaded, and the inserted row holds the client's text where the claim has
  a resolved storage path or \<^verbatim>\<open>null\<close>.
\<close>

theorem client_path_reaches_row:
  "get_prop forged ''signature_png'' = None \<and>
   snd (POST calm (Some forged)) =
     [Insert [(''waiver_id'', JStr ''BAT-1700000000000''),
              (''client_name'', JStr ''Ann Lee''),
              (''email'', JStr ''ann@example.org''),
              (''phone'', JNull), (''dob'', JNull),
              (''procedure_type'', JNull), (''procedure_site'', JNull),
              (''signature_path'', JStr ''data:image/png;base64,QUJD''),
              (''id_photo_front_path'', JNull),
              (''send_aftercare'', JBool False),
              (''timestamp_iso'', JStr ''2023-11-14T22:13:20.000Z'')]]"
  by (simp add: POST_calm_forged) (simp add: forged_def)

subsection \<open>Embedded fields that are not provided\<close>

lemma not_provided_null: "not_provided v \<Longrightarrow> dataUrlToBytes v = Inr None"
  by (cases v rule: not_provided.cases) (auto simp: dataUrlToBytes_def startsWith_def)

lemma decoded_is_tagged:
  "dataUrlToBytes v = Inr (Some (data, mime)) \<Longrightarrow> \<exists>s. v = Some (JStr s) \<and> startsWith s ''data:''"
  by (auto simp: dataUrlToBytes_def Let_def split: option.splits if_splits json.splits)

lemma insertPayload_cong:
  assumes "\<And>k. k \<noteq> f \<Longrightarrow> get_prop b k = get_prop b' k"
    and "f = ''signature_png'' \<or> f = ''id_photo_front''"
  shows "insertPayload e w b = insertPayload e w b'"
  using assms(2) by (auto simp: insertPayload_def assms(1))

lemma insert_and_notify_cong:
  assumes "\<And>k. k \<noteq> f \<Longrightarrow> get_prop b k = get_prop b' k"
    and "f = ''signature_png'' \<or> f = ''id_photo_front''"
  shows "insert_and_notify e w b t = insert_and_notify e w b' t"
proof -
  have same: "get_prop b ''send_aftercare'' = get_prop b' ''send_aftercare''"
    "get_prop b ''email'' = get_prop b' ''email''"
    "get_prop b ''client_name'' = get_prop b' ''client_name''"
    using assms(2) by (auto intro: assms(1))
  have row: "insertPayload e w b = insertPayload e w b'"
    by (rule insertPayload_cong [OF assms])
  show ?thesis
    unfolding insert_and_notify_def same row by (rule refl)
qed

lemma upload_signature_skips:
  "not_provided (get_prop b ''signature_png'') \<Longrightarrow> upload_signature w b = (Inr b, [])"
  by (simp add: upload_signature_def not_provided_null)

lemma upload_id_front_skips:
  "not_provided (get_prop b ''id_photo_front'') \<Longrightarrow> upload_id_front w b = (Inr b, [])"
  by (simp add: upload_id_front_def not_provided_null)

lemma without_signature:
  assumes np: "not_provided (map_of kvs ''signature_png'')"
  shows "attach_and_store e w (JObj kvs)
       = attach_and_store e w (JObj (filter (\<lambda>kv. fst kv \<noteq> ''signature_png'') kvs))"
    (is "_ = attach_and_store e w (JObj ?kvs')")
proof -
  have agree: "map_of ?kvs' k = map_of kvs k" if "k \<noteq> ''signature_png''" for k
    using that by (simp add: map_of_filter_key)
  have s: "upload_signature w (JObj kvs) = (Inr (JObj kvs), [])"
    using np by (simp add: upload_signature_skips)
  have s': "upload_signature w (JObj ?kvs') = (Inr (JObj ?kvs'), [])"
    by (simp add: upload_signature_skips map_of_filter_key)
  have same: "dataUrlToBytes (map_of ?kvs' ''id_photo_front'')
      = dataUrlToBytes (map_of kvs ''id_photo_front'')"
    by (simp add: agree)
  show ?thesis
  proof (cases "dataUrlToBytes (map_of kvs ''id_photo_front'')")
    case (Inl x)
    with same show ?thesis by (simp add: attach_and_store_def s s' upload_id_front_def)
  next
    case (Inr d)
    show ?thesis
    proof (cases d)
      case None
      have "insert_and_notify e w (JObj kvs) [] = insert_and_notify e w (JObj ?kvs') []"
        by (rule insert_and_notify_cong [where f = "''signature_png''"]) (simp_all add: agree)
      with None Inr same show ?thesis
        by (simp add: attach_and_store_def s s' upload_id_front_def)
    next
      case (Some dm)
      obtain data mime where dm: "dm = (data, mime)" by (cases dm)
      show ?thesis
      proof (cases "to_string w")
        case None
        with Some dm Inr same show ?thesis
          by (simp add: attach_and_store_def s s' upload_id_front_def)
      next
        case (Some ws)
        let ?p = "''waivers/'' @ ws @ ''/id_front.'' @ mime_ext mime"
        let ?b = "delete_prop (set_prop (JObj kvs) ''id_photo_front_path'' (JStr ?p)) ''id_photo_front''"
        let ?b' = "delete_prop (set_prop (JObj ?kvs') ''id_photo_front_path'' (JStr ?p)) ''id_photo_front''"
        have "insert_and_notify e w ?b [Upload ?p data mime]
            = insert_and_notify e w ?b' [Upload ?p data mime]"
          by (rule insert_and_notify_cong [where f = "''signature_png''"])
            (simp_all add: map_of_filter_key map_of_set_assoc)
        with Some \<open>d = Some dm\<close> dm Inr same show ?thesis
          by (simp add: attach_and_store_def s s' upload_id_front_def Let_def)
      qed
    qed
  qed
qed


lemma without_id_front:
  assumes np: "not_provided (map_of kvs ''id_photo_front'')"
  shows "attach_and_store e w (JObj kvs)
       = attach_and_store e w (JObj (filter (\<lambda>kv. fst kv \<noteq> ''id_photo_front'') kvs))"
    (is "_ = attach_and_store e w (JObj ?kvs')")
proof -
  have agree: "map_of ?kvs' k = map_of kvs k" if "k \<noteq> ''id_photo_front''" for k
    using that by (simp add: map_of_filter_key)
  have same: "dataUrlToBytes (map_of ?kvs' ''signature_png'')
      = dataUrlToBytes (map_of kvs ''signature_png'')"
    by (simp add: agree)
  show ?thesis
  proof (cases "dataUrlToBytes (map_of kvs ''signature_png'')")
    case (Inl x)
    with same show ?thesis by (simp add: attach_and_store_def upload_signature_def)
  next
    case (Inr d)
    show ?thesis
    proof (cases d)
      case None
      have "insert_and_notify e w (JObj kvs) [] = insert_and_notify e w (JObj ?kvs') []"
        by (rule insert_and_notify_cong [where f = "''id_photo_front''"]) (simp_all add: agree)
      moreover have "upload_id_front w (JObj kvs) = (Inr (JObj kvs), [])"
        using np by (simp add: upload_id_front_skips)
      moreover have "upload_id_front w (JObj ?kvs') = (Inr (JObj ?kvs'), [])"
        by (simp add: upload_id_front_skips map_of_filter_key)
      ultimately show ?thesis using None Inr same
        by (simp add: attach_and_store_def upload_signature_def)
    next
      case (Some dm)
      obtain data mime where dm: "dm = (data, mime)" by (cases dm)
      show ?thesis
      proof (cases "to_string w")
        case None
        with Some dm Inr same show ?thesis
          by (simp add: attach_and_store_def upload_signature_def)
      next
        case (Some ws)
        let ?p = "''waivers/'' @ ws @ ''/signature.png''"
        let ?b = "delete_prop (set_prop (JObj kvs) ''signature_path'' (JStr ?p)) ''signature_png''"
        let ?b' = "delete_prop (set_prop (JObj ?kvs') ''signature_path'' (JStr ?p)) ''signature_png''"
        have "insert_and_notify e w ?b [Upload ?p data ''image/png'']
            = insert_and_notify e w ?b' [Upload ?p data ''image/png'']"
          by (rule insert_and_notify_cong [where f = "''id_photo_front''"])
            (simp_all add: map_of_filter_key map_of_set_assoc)
        moreover have "upload_id_front w ?b = (Inr ?b, [])"
          using np by (simp add: upload_id_front_skips map_of_filter_key map_of_set_assoc)
        moreover have "upload_id_front w ?b' = (Inr ?b', [])"
          by (simp add: upload_id_front_skips map_of_filter_key map_of_set_assoc)
        ultimately show ?thesis using Some \<open>d = Some dm\<close> dm Inr same
          by (simp add: attach_and_store_def upload_signature_def Let_def)
      qed
    qed
  qed
qed

lemma without_field:
  assumes "f = ''signature_png'' \<or> f = ''id_photo_front''"
    and "not_provided (get_prop body f)"
  shows "POST_try e body = POST_try e (delete_prop body f)"
proof (cases body)
  case (JObj kvs)
  have w: "resolve_waiver_id e (delete_prop body f) = resolve_waiver_id e body"
    using assms(1) by (auto simp: resolve_waiver_id_def get_prop_delete_prop)
  have v: "get_prop (delete_prop body f) ''client_name'' = get_prop body ''client_name''"
    "get_prop (delete_prop body f) ''email'' = get_prop body ''email''"
    using assms(1) by (auto simp: get_prop_delete_prop)
  have "attach_and_store e w' body = attach_and_store e w' (delete_prop body f)" for w'
    using assms JObj without_signature [of kvs e w'] without_id_front [of kvs e w'] by auto
  then show ?thesis
    by (simp add: POST_try_def w v)
qed simp_all

lemma POST_without_field:
  assumes "f = ''signature_png'' \<or> f = ''id_photo_front''"
    and "not_provided (get_prop body f)"
  shows "POST e (Some body) = POST e (Some (delete_prop body f))"
  by (simp add: POST_def without_field [OF assms])

lemma POST_calm_ann_plain_photo:
  "POST calm (Some ann_plain_photo) =
     (\<lparr>status = 200, payload = [(''ok'', JBool True), (''waiver_id'', JStr ''BAT-LOCAL-4711'')]\<rparr>,
      [Upload ''waivers/BAT-LOCAL-4711/signature.png'' [65, 66, 67] ''image/png'',
       Insert [(''waiver_id'', JStr ''BAT-LOCAL-4711''),
               (''client_name'', JStr ''Ann Lee''),
               (''email'', JStr ''ann@example.org''),
               (''phone'', JNull), (''dob'', JNull),
               (''procedure_type'', JNull), (''procedure_site'', JNull),
               (''signature_path'', JStr ''waivers/BAT-LOCAL-4711/signature.png''),
               (''id_photo_front_path'', JNull),
               (''send_aftercare'', JBool False),
               (''timestamp_iso'', JStr ''2023-11-14T22:13:20.000Z'')]])"
  by (simp add: route_defs calm_def ann_plain_photo_def)

text \<open>
  What the decoder's guard does. An embedded field (\<^verbatim>\<open>signature_png\<close> or
  \<^verbatim>\<open>id_photo_front\<close>) that is absent, falsy or a string not beginning with \<^verbatim>\<open>data:\<close> is
  decoded to \<^verbatim>\<open>null\<close>; its step uploads nothing and leaves the body as it is; and the
  handler answers and acts exactly as it does on the body without that field. Only a
  string beginning with \<^verbatim>\<open>data:\<close> is ever decoded into bytes and a MIME type.
\<close>

lemma not_provided_field_skipped:
  "f = ''signature_png'' \<or> f = ''id_photo_front'' \<Longrightarrow>
   not_provided (get_prop body f) \<Longrightarrow>
   dataUrlToBytes (get_prop body f) = Inr None \<and>
   (f = ''signature_png'' \<longrightarrow> upload_signature w body = (Inr body, [])) \<and>
   (f = ''id_photo_front'' \<longrightarrow> upload_id_front w body = (Inr body, [])) \<and>
   POST e (Some body) = POST e (Some (delete_prop body f)) \<and>
   (\<forall>v data mime. dataUrlToBytes v = Inr (Some (data, mime)) \<longrightarrow>
      (\<exists>s. v = Some (JStr s) \<and> startsWith s ''data:''))"
proof -
  assume f: "f = ''signature_png'' \<or> f = ''id_photo_front''"
    and np: "not_provided (get_prop body f)"
  have "dataUrlToBytes (get_prop body f) = Inr None"
    using np by (rule not_provided_null)
  moreover have "f = ''signature_png'' \<longrightarrow> upload_signature w body = (Inr body, [])"
    using np by (auto simp: upload_signature_skips)
  moreover have "f = ''id_photo_front'' \<longrightarrow> upload_id_front w body = (Inr body, [])"
    using np by (auto simp: upload_id_front_skips)
  moreover have "POST e (Some body) = POST e (Some (delete_prop body f))"
    using f np by (rule POST_without_field)
  moreover have "\<forall>v data mime. dataUrlToBytes v = Inr (Some (data, mime)) \<longrightarrow>
      (\<exists>s. v = Some (JStr s) \<and> startsWith s ''data:'')"
    using decoded_is_tagged by blast
  ultimately show ?thesis by blast
qed

text \<open>
  C6 does not hold of the code. A field that is malformed and does begin with \<^verbatim>\<open>data:\<close>
  is not treated as not provided. The payload of the photo below is not base64: the
  guard lets it through, \<^verbatim>\<open>atob\<close> throws, and the handler answers 500 after the
  signature upload has been issued, with nothing inserted.
\<close>

theorem malformed_photo_is_server_error:
  "get_prop ann_bad_photo ''id_photo_front'' = Some (JStr ''data:image/jpeg;base64,%%%%'') \<and>
   dataUrlToBytes (get_prop ann_bad_photo ''id_photo_front'') = Inl InvalidCharacterError \<and>
   POST calm (Some ann_bad_photo) =
     (\<lparr>status = 500, payload = [(''ok'', JBool False), (''error'', JStr ''Server error'')]\<rparr>,
      [Upload ''waivers/BAT-LOCAL-4711/signature.png'' [65, 66, 67] ''image/png'',
       LogError ''Handler exception''])"
  by (simp add: route_defs calm_def ann_bad_photo_def)

subsection \<open>Failing uploads\<close>

text \<open>An upload whose promise rejects does abort the run: no row is inserted.\<close>

lemma rejected_upload_aborts:
  assumes "Upload path data mime \<in> set (snd (POST_try e body))"
    and "storage_upload e path = UploadRejects"
  shows "\<exists>x. fst (POST_try e body) = Inl x" and "\<not> list_ex is_insert (snd (POST_try e body))"
proof -
  have "(\<exists>x. fst (POST_try e body) = Inl x) \<and> \<not> list_ex is_insert (snd (POST_try e body))"
  proof (cases e body rule: POST_try_cases)
    case invalid
    with assms show ?thesis by simp
  next
    case (signature_throws x t1)
    then show ?thesis
      using upload_signature_no_insert [OF signature_throws(3)]
      by (auto simp: list_ex_iff elim: is_insert.elims)
  next
    case (id_front_throws body1 t1 x t2)
    then show ?thesis
      using upload_signature_no_insert [OF id_front_throws(3)]
        upload_id_front_no_insert [OF id_front_throws(4)]
      by (auto simp: list_ex_iff elim: is_insert.elims)
  next
    case (decoded body1 t1 body2 t2)
    from assms(1) decoded(5)
      insert_and_notify_events [of "Upload path data mime" e _ body2 "t1 @ t2"]
    have "Upload path data mime \<in> set (t1 @ t2)" by auto
    with assms(2) have "list_ex (upload_rejects e) (t1 @ t2)"
      by (auto simp: list_ex_iff intro: bexI [where x = "Upload path data mime"])
    then have "POST_try e body = (Inl UploadRejected, t1 @ t2)"
      by (simp add: decoded(5) insert_and_notify_def)
    then show ?thesis
      using upload_signature_no_insert [OF decoded(3)]
        upload_id_front_no_insert [OF decoded(4)]
      by (auto simp: list_ex_iff elim: is_insert.elims)
  qed
  then show "\<exists>x. fst (POST_try e body) = Inl x"
    and "\<not> list_ex is_insert (snd (POST_try e body))" by simp_all
qed

lemma POST_storage_throws_ann:
  "POST storage_throws (Some ann) =
     (\<lparr>status = 500, payload = [(''ok'', JBool False), (''error'', JStr ''Server error'')]\<rparr>,
      [Upload ''waivers/BAT-LOCAL-4711/signature.png'' [65, 66, 67] ''image/png'',
       Upload ''waivers/BAT-LOCAL-4711/id_front.jpeg'' [68] ''image/jpeg'',
       LogError ''Handler exception''])"
  by (simp add: route_defs calm_def storage_throws_def ann_def)

text \<open>
  C5 does not hold of the code. The storage answers both uploads of the submission
  below with an error result, as the client library does for a refused or failed
  upload. The handler never looks at the results: it inserts the row, sends the mail
  and answers 200.
\<close>

theorem upload_error_result_ignored:
  "storage_upload storage_refuses ''waivers/BAT-LOCAL-4711/signature.png'' = UploadError \<and>
   storage_upload storage_refuses ''waivers/BAT-LOCAL-4711/id_front.jpeg'' = UploadError \<and>
   POST storage_refuses (Some ann) =
     (\<lparr>status = 200, payload = [(''ok'', JBool True), (''waiver_id'', JStr ''BAT-LOCAL-4711'')]\<rparr>,
      [Upload ''waivers/BAT-LOCAL-4711/signature.png'' [65, 66, 67] ''image/png'',
       Upload ''waivers/BAT-LOCAL-4711/id_front.jpeg'' [68] ''image/jpeg'',
       Insert [(''waiver_id'', JStr ''BAT-LOCAL-4711''),
               (''client_name'', JStr ''Ann Lee''),
               (''email'', JStr ''ann@example.org''),
               (''phone'', JNull), (''dob'', JNull),
               (''procedure_type'', JNull), (''procedure_site'', JNull),
               (''signature_path'', JStr ''waivers/BAT-LOCAL-4711/signature.png''),
               (''id_photo_front_path'', JStr ''waivers/BAT-LOCAL-4711/id_front.jpeg''),
               (''send_aftercare'', JBool True),
               (''timestamp_iso'', JStr ''2023-11-14T22:13:20.000Z'')],
       Dispatch (JStr ''ann@example.org'') ''Ann'',
       LogInfo ''Brevo send ok''])"
  by (simp add: route_defs calm_def storage_refuses_def ann_def)

subsection \<open>The aftercare notification\<close>

text \<open>
  A mail service that answers, whatever its status, never fails the submission: the
  answer is logged.
\<close>

lemma answered_dispatch_is_logged:
  assumes "brevo_fetch e = Responded ok st (Some txt)"
  shows "sendAftercareEmail e rcpt (Some (JStr s)) =
     (Inr (), [Dispatch rcpt (first_name s),
               if ok then LogInfo ''Brevo send ok'' else LogError ''Brevo send error''])"
  using assms by (simp add: sendAftercareEmail_def)

lemma POST_mail_refuses_ann:
  "POST mail_refuses (Some ann) =
     (\<lparr>status = 200, payload = [(''ok'', JBool True), (''waiver_id'', JStr ''BAT-LOCAL-4711'')]\<rparr>,
      [Upload ''waivers/BAT-LOCAL-4711/signature.png'' [65, 66, 67] ''image/png'',
       Upload ''waivers/BAT-LOCAL-4711/id_front.jpeg'' [68] ''image/jpeg'',
       Insert [(''waiver_id'', JStr ''BAT-LOCAL-4711''),
               (''client_name'', JStr ''Ann Lee''),
               (''email'', JStr ''ann@example.org''),
               (''phone'', JNull), (''dob'', JNull),
               (''procedure_type'', JNull), (''procedure_site'', JNull),
               (''signature_path'', JStr ''waivers/BAT-LOCAL-4711/signature.png''),
               (''id_photo_front_path'', JStr ''waivers/BAT-LOCAL-4711/id_front.jpeg''),
               (''send_aftercare'', JBool True),
               (''timestamp_iso'', JStr ''2023-11-14T22:13:20.000Z'')],
       Dispatch (JStr ''ann@example.org'') ''Ann'',
       LogError ''Brevo send error''])"
  by (simp add: route_defs calm_def mail_refuses_def ann_def)

text \<open>
  Whatever happens, a run attempts at most one dispatch, and the insert, which has
  succeeded, is the event just before it.
\<close>

lemma sendAftercareEmail_trace:
  obtains "snd (sendAftercareEmail e rcpt name) = []"
  | s logs where "snd (sendAftercareEmail e rcpt name) = Dispatch rcpt (first_name s) # logs"
      "\<not> list_ex is_dispatch logs"
proof (cases "if truthy_opt name
            then (case name of Some (JStr s) \<Rightarrow> Inr s | _ \<Rightarrow> Inl TypeError)
            else Inr []")
  case (Inl x)
  then have "snd (sendAftercareEmail e rcpt name) = []" by (simp add: sendAftercareEmail_def)
  then show ?thesis using that(1) by simp
next
  case (Inr s)
  then have "\<exists>logs. snd (sendAftercareEmail e rcpt name) = Dispatch rcpt (first_name s) # logs
      \<and> \<not> list_ex is_dispatch logs"
    by (auto simp: sendAftercareEmail_def Let_def split: fetch_result.splits option.splits)
  then show ?thesis using that(2) by blast
qed

lemma insert_and_notify_dispatch:
  assumes "Dispatch rcpt first \<in> set (snd (insert_and_notify e w b t))"
    and "\<not> list_ex is_dispatch t"
  shows "db_insert e = InsertOk \<and>
    (\<exists>post. snd (insert_and_notify e w b t) = t @ [Insert (insertPayload e w b), Dispatch rcpt first] @ post
        \<and> \<not> list_ex is_dispatch post)"
proof -
  from assms(2) have notin: "Dispatch rcpt first \<notin> set t"
    by (auto simp: list_ex_iff intro: bexI [where x = "Dispatch rcpt first"])
  show ?thesis
  proof (cases "list_ex (upload_rejects e) t")
    case True
    with assms(1) notin show ?thesis by (simp add: insert_and_notify_def)
  next
    case False
    show ?thesis
    proof (cases "db_insert e")
      case InsertOk
      show ?thesis
      proof (cases "truthy_opt (get_prop b ''send_aftercare'') \<and> truthy_opt (get_prop b ''email'')")
        case opted: True
        let ?m = "sendAftercareEmail e (or_null (get_prop b ''email'')) (get_prop b ''client_name'')"
        have tr: "snd (insert_and_notify e w b t) = t @ [Insert (insertPayload e w b)] @ snd ?m"
          using False InsertOk opted
          by (simp add: insert_and_notify_def Let_def split: prod.splits sum.splits)
        show ?thesis
        proof (cases e "or_null (get_prop b ''email'')" "get_prop b ''client_name''"
            rule: sendAftercareEmail_trace)
          case 1
          with tr assms(1) notin show ?thesis by simp
        next
          case (2 s logs)
          with tr assms(1) notin have "Dispatch rcpt first = Dispatch (or_null (get_prop b ''email'')) (first_name s)"
            by (auto simp: list_ex_iff)
          with 2 tr InsertOk show ?thesis by simp
        qed
      next
        case False
        with \<open>\<not> list_ex (upload_rejects e) t\<close> InsertOk assms(1) notin show ?thesis
          by (auto simp: insert_and_notify_def Let_def)
      qed
    next
      case (InsertError m d h)
      with False assms(1) notin show ?thesis by (simp add: insert_and_notify_def Let_def)
    next
      case InsertRejects
      with False assms(1) notin show ?thesis by (simp add: insert_and_notify_def Let_def)
    qed
  qed
qed

lemma uploads_only:
  "upload_signature w b = (r, t) \<Longrightarrow> \<not> list_ex is_dispatch t"
  "upload_id_front w b = (r, t) \<Longrightarrow> \<not> list_ex is_dispatch t"
  by (auto simp: list_ex_iff dest: upload_signature_events upload_id_front_events)

lemma dispatch_once_after_insert:
  assumes "Dispatch rcpt first \<in> set (snd (POST e (Some body)))"
  shows "db_insert e = InsertOk \<and>
    (\<exists>pre row post. snd (POST e (Some body)) = pre @ [Insert row, Dispatch rcpt first] @ post
        \<and> \<not> list_ex is_dispatch pre \<and> \<not> list_ex is_dispatch post)"
proof -
  from assms POST_events [of e body] have d: "Dispatch rcpt first \<in> set (snd (POST_try e body))"
    by auto
  have "db_insert e = InsertOk \<and>
    (\<exists>pre row post. snd (POST_try e body) = pre @ [Insert row, Dispatch rcpt first] @ post
        \<and> \<not> list_ex is_dispatch pre \<and> \<not> list_ex is_dispatch post)"
  proof (cases e body rule: POST_try_cases)
    case invalid
    with d show ?thesis by simp
  next
    case (signature_throws x t1)
    with d uploads_only(1) [OF signature_throws(3)] show ?thesis
      by (auto simp: list_ex_iff)
  next
    case (id_front_throws body1 t1 x t2)
    with d uploads_only(1) [OF id_front_throws(3)] uploads_only(2) [OF id_front_throws(4)]
    show ?thesis by (auto simp: list_ex_iff)
  next
    case (decoded body1 t1 body2 t2)
    have "\<not> list_ex is_dispatch (t1 @ t2)"
      using uploads_only(1) [OF decoded(3)] uploads_only(2) [OF decoded(4)] by simp
    from insert_and_notify_dispatch [OF d [unfolded decoded(5)] this]
    obtain post where ok: "db_insert e = InsertOk"
      and tr: "snd (POST_try e body)
        = (t1 @ t2) @ [Insert (insertPayload e (resolve_waiver_id e body) body2),
            Dispatch rcpt first] @ post"
      and post: "\<not> list_ex is_dispatch post"
      unfolding decoded(5) by blast
    from ok tr post \<open>\<not> list_ex is_dispatch (t1 @ t2)\<close> show ?thesis by blast
  qed
  then obtain pre row post where ok: "db_insert e = InsertOk"
    and tr: "snd (POST_try e body) = pre @ [Insert row, Dispatch rcpt first] @ post"
    and pre: "\<not> list_ex is_dispatch pre" and post: "\<not> list_ex is_dispatch post" by blast
  have "snd (POST e (Some body)) = snd (POST_try e body) \<or>
    snd (POST e (Some body)) = snd (POST_try e body) @ [LogError ''Handler exception'']"
    by (auto simp: POST_def split: prod.splits sum.splits)
  then show ?thesis
  proof
    assume "snd (POST e (Some body)) = snd (POST_try e body)"
    with ok tr pre post show ?thesis by auto
  next
    assume "snd (POST e (Some body)) = snd (POST_try e body) @ [LogError ''Handler exception'']"
    then have "snd (POST e (Some body))
        = pre @ [Insert row, Dispatch rcpt first] @ (post @ [LogError ''Handler exception''])"
      by (simp add: tr)
    moreover have "\<not> list_ex is_dispatch (post @ [LogError ''Handler exception''])"
      using post by simp
    ultimately show ?thesis using ok pre by blast
  qed
qed

text \<open>
  C3 does not hold of the code. When the request to the mail service rejects (the
  service cannot be reached), the exception leaves \<^verbatim>\<open>sendAftercareEmail\<close> and reaches
  the handler's \<^verbatim>\<open>catch\<close>: the row is inserted, the one dispatch is attempted, and the
  answer is 500.
\<close>

theorem mail_rejection_is_server_error:
  "truthy_opt (get_prop ann ''send_aftercare'') \<and>
   truthy_opt (get_prop ann ''email'') \<and>
   brevo_fetch mail_down = FetchRejects \<and>
   POST mail_down (Some ann) =
     (\<lparr>status = 500, payload = [(''ok'', JBool False), (''error'', JStr ''Server error'')]\<rparr>,
      [Upload ''waivers/BAT-LOCAL-4711/signature.png'' [65, 66, 67] ''image/png'',
       Upload ''waivers/BAT-LOCAL-4711/id_front.jpeg'' [68] ''image/jpeg'',
       Insert [(''waiver_id'', JStr ''BAT-LOCAL-4711''),
               (''client_name'', JStr ''Ann Lee''),
               (''email'', JStr ''ann@example.org''),
               (''phone'', JNull), (''dob'', JNull),
               (''procedure_type'', JNull), (''procedure_site'', JNull),
               (''signature_path'', JStr ''waivers/BAT-LOCAL-4711/signature.png''),
               (''id_photo_front_path'', JStr ''waivers/BAT-LOCAL-4711/id_front.jpeg''),
               (''send_aftercare'', JBool True),
               (''timestamp_iso'', JStr ''2023-11-14T22:13:20.000Z'')],
       Dispatch (JStr ''ann@example.org'') ''Ann'',
       LogError ''Handler exception''])"
  by (simp add: route_defs calm_def mail_down_def ann_def)

section \<open>The embedded binary format\<close>

subsection \<open>Base64 there and back\<close>

lemma split_on_no_sep: "c \<notin> set ys \<Longrightarrow> split_on c ys = [ys]"
  by (induction ys) auto

lemma split_on_first: "c \<notin> set xs \<Longrightarrow> split_on c (xs @ c # ys) = xs # split_on c ys"
  by (induction xs) auto

lemma indexOf_first: "c \<notin> set xs \<Longrightarrow> indexOf (xs @ c # ys) c = int (length xs)"
  by (induction xs) (auto simp: Let_def)

lemma index_in_nth: "distinct xs \<Longrightarrow> n < length xs \<Longrightarrow> index_in xs (xs ! n) = Some n"
proof (induction xs arbitrary: n)
  case Nil then show ?case by simp
next
  case (Cons x xs)
  show ?case
  proof (cases n)
    case 0 then show ?thesis by simp
  next
    case (Suc m)
    with Cons.prems have "xs ! m \<noteq> x" by auto
    with Suc Cons show ?thesis by auto
  qed
qed

lemma b64_alphabet_distinct: "distinct b64_alphabet"
  by (simp add: b64_alphabet_def)

lemma b64_alphabet_length: "length b64_alphabet = 64"
  by (simp add: b64_alphabet_def)

lemma b64_value_char: "n < 64 \<Longrightarrow> b64_value (b64_char n) = Some n"
  by (simp add: b64_value_def b64_char_def index_in_nth b64_alphabet_distinct b64_alphabet_length)

lemma b64_alphabet_plain:
  "c \<in> set b64_alphabet \<Longrightarrow> c \<noteq> CHR ''='' \<and> c \<noteq> CHR '','' \<and> \<not> ascii_whitespace c"
  by (auto simp: b64_alphabet_def ascii_whitespace_def)

lemma b64_char_plain:
  "n < 64 \<Longrightarrow> b64_char n \<noteq> CHR ''='' \<and> b64_char n \<noteq> CHR '','' \<and> \<not> ascii_whitespace (b64_char n)"
  by (rule b64_alphabet_plain) (simp add: b64_char_def b64_alphabet_length)

lemma byte_bound: "unat (a :: 8 word) < 256"
  using unsigned_less [of a, where 'a = nat] by simp

lemma sextets_bound: "v \<in> set (sextets bs) \<Longrightarrow> v < 64"
proof (induction bs arbitrary: v rule: sextets.induct)
  case (4 a b c bs)
  have "unat a < 256" "unat b < 256" "unat c < 256" by (rule byte_bound)+
  with 4 show ?case by auto
next
  case (2 a)
  have "unat a < 256" by (rule byte_bound)
  with 2 show ?case by auto
next
  case (3 a b)
  have "unat a < 256" "unat b < 256" by (rule byte_bound)+
  with 3 show ?case by auto
qed simp

lemma octets_sextets: "octets (sextets bs) = map unat bs"
proof (induction bs rule: sextets.induct)
  case (4 a b c bs)
  have "unat a < 256" "unat b < 256" "unat c < 256" by (rule byte_bound)+
  with 4 show ?case by simp
next
  case (2 a)
  have "unat a < 256" by (rule byte_bound)
  then show ?case by simp
next
  case (3 a b)
  have "unat a < 256" "unat b < 256" by (rule byte_bound)+
  then show ?case by simp
qed simp


lemma mod3_cases: "(n::nat) mod 3 = 0 \<or> n mod 3 = 1 \<or> n mod 3 = 2"
  by presburger

lemma length_sextets_mod:
  "length (sextets bs) mod 4 = (if length bs mod 3 = 0 then 0 else length bs mod 3 + 1)"
proof (induction bs rule: sextets.induct)
  case (4 a b c bs)
  have "length (a # b # c # bs) = length bs + 3" by simp
  then have "length (a # b # c # bs) mod 3 = length bs mod 3" by (metis mod_add_self2)
  moreover have "length (sextets (a # b # c # bs)) = length (sextets bs) + 4" by simp
  then have "length (sextets (a # b # c # bs)) mod 4 = length (sextets bs) mod 4"
    by (metis mod_add_self2)
  ultimately show ?case using 4 by simp
qed simp_all

lemma padding_cases: "padding n = (if n mod 3 = 0 then 0 else 3 - n mod 3)"
  using mod3_cases [of n] by (auto simp: padding_def)

lemma length_toBase64: "length (toBase64 bs) mod 4 = 0"
proof -
  have len: "length (toBase64 bs) = length (sextets bs) + padding (length bs)"
    by (simp add: toBase64_def)
  have "(length (sextets bs) mod 4 + padding (length bs)) mod 4 = 0"
    using mod3_cases [of "length bs"]
    by (auto simp: length_sextets_mod padding_cases)
  then show ?thesis by (simp add: len mod_add_left_eq)
qed

lemma length_sextets_not_1: "length (sextets bs) mod 4 \<noteq> 1"
  using mod3_cases [of "length bs"] by (auto simp: length_sextets_mod)

lemma strip_padding_replicate:
  assumes "p \<le> 2" and "xs \<noteq> [] \<Longrightarrow> last xs \<noteq> CHR ''=''"
  shows "strip_padding (xs @ replicate p CHR ''='') = xs"
proof -
  consider "p = 0" | "p = 1" | "p = 2" using assms(1) by linarith
  then show ?thesis
  proof cases
    case 1
    show ?thesis
    proof (cases xs rule: rev_cases)
      case Nil
      with 1 show ?thesis by (simp add: strip_padding_def)
    next
      case (snoc ys y)
      with assms(2) have "y \<noteq> CHR ''=''" by simp
      with 1 snoc show ?thesis
        by (cases ys rule: rev_cases) (simp_all add: strip_padding_def)
    qed
  next
    case 2
    show ?thesis
    proof (cases xs rule: rev_cases)
      case Nil
      with 2 show ?thesis by (simp add: strip_padding_def)
    next
      case (snoc ys y)
      with assms(2) have "y \<noteq> CHR ''=''" by simp
      with 2 snoc show ?thesis by (simp add: strip_padding_def)
    qed
  next
    case 3
    then have "replicate p CHR ''='' = [CHR ''='', CHR ''='']" by (simp add: numeral_2_eq_2)
    then show ?thesis by (simp add: strip_padding_def)
  qed
qed

lemma all_some_map:
  "(\<And>x. x \<in> set xs \<Longrightarrow> f x = Some (g x)) \<Longrightarrow> all_some (map f xs) = Some (map g xs)"
  by (induction xs) simp_all

lemma padding_le: "padding n \<le> 2"
proof -
  have "(3 - n mod 3) mod 3 < 3" by simp
  then show ?thesis by (simp add: padding_def)
qed

lemma atob_toBase64: "atob (toBase64 bs) = Some (map unat bs)"
proof -
  let ?cs = "map b64_char (sextets bs)"
  have plain: "c \<noteq> CHR ''='' \<and> c \<noteq> CHR '','' \<and> \<not> ascii_whitespace c" if "c \<in> set ?cs" for c
    using that b64_char_plain sextets_bound by auto
  have "\<not> ascii_whitespace c" if "c \<in> set (toBase64 bs)" for c
    using that plain by (auto simp: toBase64_def ascii_whitespace_def)
  then have f: "filter (\<lambda>c. \<not> ascii_whitespace c) (toBase64 bs) = toBase64 bs"
    by (simp add: filter_id_conv)
  have "last ?cs \<noteq> CHR ''=''" if "?cs \<noteq> []"
    using plain [of "last ?cs"] that last_in_set by blast
  then have s: "strip_padding (toBase64 bs) = ?cs"
    unfolding toBase64_def by (intro strip_padding_replicate padding_le)
  have l: "length ?cs mod 4 \<noteq> 1"
    using length_sextets_not_1 [of bs] by simp
  have v: "all_some (map b64_value ?cs) = Some (sextets bs)"
    using all_some_map [of "sextets bs" "b64_value \<circ> b64_char" id]
    by (simp add: b64_value_char sextets_bound)
  have d: "(if length (toBase64 bs) mod 4 = 0 then strip_padding (toBase64 bs) else toBase64 bs) = ?cs"
    by (simp add: length_toBase64 s)
  have "atob (toBase64 bs) = Some (octets (sextets bs))"
    unfolding atob_def f Let_def d using l v by simp
  then show ?thesis by (simp add: octets_sextets)
qed

lemma toBase64_no_comma: "CHR '','' \<notin> set (toBase64 bs)"
proof
  assume "CHR '','' \<in> set (toBase64 bs)"
  then obtain v where "v \<in> set (sextets bs)" "b64_char v = CHR '',''"
    by (auto simp: toBase64_def)
  with b64_char_plain [of v] sextets_bound [of v bs] show False by simp
qed

lemma bytes_of_codes: "map (of_nat \<circ> unat) bs = (bs :: bytes)"
  by (simp add: map_idI)


lemma slice_mime: "slice_string (''data:'' @ m @ '';base64'') 5 (5 + int (length m)) = m"
  by (simp add: slice_string_def clamp_index_def)

text \<open>
  C8, as the code has it. For every byte sequence and every MIME type that contains
  neither a comma nor a semicolon, decoding (\<^verbatim>\<open>dataUrlToBytes\<close>) the string that
  \<^verbatim>\<open>fileToDataURL\<close> builds, \<^verbatim>\<open>data:<mime>;base64,<b64>\<close>, gives back exactly the bytes and
  the MIME type.
\<close>

theorem data_url_round_trip:
  "CHR '','' \<notin> set mime \<Longrightarrow> CHR '';'' \<notin> set mime \<Longrightarrow>
   dataUrlToBytes
     (map_option JStr (fileToDataURL (Some \<lparr>file_type = mime, file_bytes = bs\<rparr>)))
   = Inr (Some (bs, mime))"
proof -
  assume comma: "CHR '','' \<notin> set mime" and semi: "CHR '';'' \<notin> set mime"
  let ?meta = "''data:'' @ mime @ '';base64''"
  let ?url = "''data:'' @ mime @ '';base64,'' @ toBase64 bs"
  have url: "?url = ?meta @ CHR '','' # toBase64 bs" by simp
  have "CHR '','' \<notin> set ?meta" using comma by simp
  then have "split_on CHR '','' (?meta @ CHR '','' # toBase64 bs)
      = ?meta # split_on CHR '','' (toBase64 bs)"
    by (rule split_on_first)
  also have "split_on CHR '','' (toBase64 bs) = [toBase64 bs]"
    by (rule split_on_no_sep [OF toBase64_no_comma])
  finally have parts: "split_on CHR '','' ?url = [?meta, toBase64 bs]"
    by (simp only: url)
  have "CHR '';'' \<notin> set (''data:'' @ mime)" using semi by simp
  then have "indexOf ((''data:'' @ mime) @ CHR '';'' # ''base64'') CHR '';''
      = int (length (''data:'' @ mime))"
    by (rule indexOf_first)
  then have idx: "indexOf ?meta CHR '';'' = int (5 + length mime)" by simp
  have starts: "startsWith ?url ''data:''" by (simp add: startsWith_def)
  have "dataUrlToBytes (Some (JStr ?url)) = Inr (Some (bs, mime))"
    unfolding dataUrlToBytes_def
    by (simp add: starts parts idx slice_mime atob_toBase64 bytes_of_codes del: append.simps)
  then show ?thesis by (simp add: fileToDataURL_def)
qed

theorem data_url_round_trip_witness:
  "dataUrlToBytes
     (map_option JStr (fileToDataURL (Some \<lparr>file_type = ''image/jpeg'', file_bytes = [68, 0, 255]\<rparr>)))
   = Inr (Some ([68, 0, 255], ''image/jpeg''))"
  using data_url_round_trip [of "''image/jpeg''" "[68, 0, 255]"] by simp

text \<open>
  C8, as it is worded, fails on a MIME type with a parameter: the decoder reads the type
  up to the first semicolon, so the parameter is lost.
\<close>

theorem mime_parameters_lost:
  "dataUrlToBytes
     (map_option JStr
        (fileToDataURL (Some \<lparr>file_type = ''text/plain;charset=utf-8'', file_bytes = [65, 66, 67]\<rparr>)))
   = Inr (Some ([65, 66, 67], ''text/plain''))"
  by (simp add: fileToDataURL_def toBase64_def padding_def b64_char_def route_defs)

section \<open>Properties of the signature pad\<close>

lemma channel_3: "channel 3 p = alpha p"
  by (simp add: numeral_3_eq_3)

lemma to_byte_of_nat: "to_byte (of_nat n) = n"
proof -
  have "\<lfloor>(of_nat n :: rat) + 1 / 2\<rfloor> = int n"
    by (rule floor_unique) simp_all
  then show ?thesis by (simp add: to_byte_def)
qed

lemma to_byte_255: "to_byte 255 = 255"
  using to_byte_of_nat [of 255] by simp

lemma blend_full_opaque:
  "alpha src = 255 \<Longrightarrow> blend 1 src dst = RGBA (red src) (green src) (blue src) 255"
  by (simp add: blend_def Let_def to_byte_of_nat to_byte_255)

lemma first_sample_decides:
  assumes "context2d c" "0 < width c" "0 < height c" "0 < alpha (bitmap c 0 0)"
  shows "hasAnyInk c"
proof -
  have "0 < width c * height c" using assms(2,3) by simp
  then have "3 < width c * height c * 4" by linarith
  then have "getImageData c 3 = Some (alpha (bitmap c 0 0))"
    by (simp add: getImageData_def channel_3)
  with assms have "scan_row c 0 0" by (subst scan_row.simps) simp
  with assms have "scan_rows c 0" by (subst scan_rows.simps) simp
  with assms show ?thesis by (simp add: hasAnyInk_def)
qed


lemma cover_first_pixel: "1 \<le> hi \<Longrightarrow> cover 0 hi 0 = 1"
  by (simp add: cover_def)

text \<open>
  Rounding to a double never takes a product of factors that are at least 1 below 1.
\<close>

lemma resize_fills:
  assumes "context2d c" "0 < parent_clientWidth pg"
    and "\<And>a b. 1 \<le> a \<Longrightarrow> 1 \<le> b \<Longrightarrow> 1 \<le> times pg a b"
  obtains c' where "resize pg (Some c) = Inr (Some c')"
    "context2d c'" "0 < width c'" "0 < height c'" "bitmap c' 0 0 = RGBA 255 255 255 255"
proof -
  define dpr where "dpr = max 1 (if devicePixelRatio pg = 0 then 1 else devicePixelRatio pg)"
  define w where "w = parent_clientWidth pg"
  have dpr: "1 \<le> dpr" by (simp add: dpr_def)
  have w: "1 \<le> (of_nat w :: rat)" using assms(2) by (simp add: w_def)
  have wd: "1 \<le> of_nat w * dpr" using mult_mono [OF w dpr] by simp
  have hd: "1 \<le> 160 * dpr" using dpr by simp
  have twd: "1 \<le> times pg (of_nat w) dpr" using w dpr by (rule assms(3))
  have thd: "1 \<le> times pg 160 dpr" using dpr by (intro assms(3)) simp_all
  define c' where "c' =
    fillRect 0 0 (of_nat w) 160
      (set_size (nat \<lfloor>times pg (of_nat w) dpr\<rfloor>) (nat \<lfloor>times pg 160 dpr\<rfloor>) c
        \<lparr>ctx_scale := 1 * dpr, lineWidth := 2, strokeStyle := RGBA 17 17 17 255,
          fillStyle := RGBA 255 255 255 255\<rparr>)"
  have "resize pg (Some c) = Inr (Some c')"
    using assms(1) by (simp add: resize_def c'_def dpr_def w_def set_size_def Let_def)
  moreover have "context2d c'"
    using assms(1) by (simp add: c'_def fillRect_def set_size_def)
  moreover have "0 < width c'"
  proof -
    have "1 \<le> \<lfloor>times pg (of_nat w) dpr\<rfloor>" using twd by (simp add: le_floor_iff)
    then show ?thesis by (simp add: c'_def fillRect_def set_size_def)
  qed
  moreover have "0 < height c'"
  proof -
    have "1 \<le> \<lfloor>times pg 160 dpr\<rfloor>" using thd by (simp add: le_floor_iff)
    then show ?thesis by (simp add: c'_def fillRect_def set_size_def)
  qed
  moreover have "bitmap c' 0 0 = RGBA 255 255 255 255"
    using wd hd
    by (simp add: c'_def fillRect_def set_size_def Let_def cover_first_pixel blend_full_opaque)
  ultimately show ?thesis using that by blast
qed

lemma cleared_canvas_has_ink:
  assumes "context2d c" "0 < parent_clientWidth pg"
    and "\<And>a b. 1 \<le> a \<Longrightarrow> 1 \<le> b \<Longrightarrow> 1 \<le> times pg a b"
  shows "\<exists>c'. clear pg (Some c) = Inr (Some c') \<and> hasAnyInk c'"
proof -
  have "context2d (clearRect_all c)" using assms(1) by (simp add: clearRect_all_def)
  from resize_fills [OF this assms(2,3)] obtain c' where
    "resize pg (Some (clearRect_all c)) = Inr (Some c')"
    "context2d c'" "0 < width c'" "0 < height c'" "bitmap c' 0 0 = RGBA 255 255 255 255"
    by blast
  then show ?thesis
    using assms(1) first_sample_decides [of c'] by (simp add: clear_def)
qed

text \<open>
  C4 does not hold of the code. \<^verbatim>\<open>clear\<close> ends in \<^verbatim>\<open>resize\<close>, which fills the whole
  surface with opaque white, so every pixel of a surface that has just been cleared
  has alpha 255, and \<^verbatim>\<open>hasAnyInk\<close>, which looks for a sampled pixel of alpha above 0,
  answers \<^verbatim>\<open>true\<close> at the first sample.
\<close>

theorem cleared_pad_has_ink:
  "map_sum id (map_option hasAnyInk) (clear handset (Some fresh_canvas)) = Inr (Some True)"
proof -
  have "context2d fresh_canvas" "0 < parent_clientWidth handset"
    by (simp_all add: fresh_canvas_def handset_def)
  moreover have "1 \<le> times handset a b" if "1 \<le> a" "1 \<le> b" for a b
  proof -
    from that have "1 * 1 \<le> a * b" by (intro mult_mono) simp_all
    then show ?thesis by (simp add: handset_def)
  qed
  ultimately show ?thesis
    using cleared_canvas_has_ink [of fresh_canvas handset] by auto
qed

text \<open>Drawing never makes an opaque pixel less opaque.\<close>

lemma blend_keeps_opaque:
  assumes "0 \<le> k" "k \<le> 1" "alpha src \<le> 255" "alpha dst = 255"
  shows "alpha (blend k src dst) = 255"
proof -
  have "k * of_nat (alpha src) / 255 + (1 - k * of_nat (alpha src) / 255) = (1 :: rat)" by simp
  then show ?thesis using assms(4) by (simp add: blend_def Let_def to_byte_255)
qed


lemma stroke_keeps_first_sample:
  assumes "context2d c" "0 < width c" "0 < height c" "alpha (bitmap c 0 0) = 255"
    and "alpha (strokeStyle c) \<le> 255"
    and "\<And>px py. 0 \<le> cov px py \<and> cov px py \<le> 1"
  shows "hasAnyInk (stroke_line cov c)"
proof -
  have "alpha (bitmap (stroke_line cov c) 0 0) = 255"
    using assms(4,5) assms(6) [of 0 0]
    by (simp add: stroke_line_def blend_keeps_opaque)
  then show ?thesis
    using assms(1-3) first_sample_decides [of "stroke_line cov c"]
    by (simp add: stroke_line_def)
qed

section \<open>What is persisted of a submission\<close>




















end
